theory Spec2Isabelle
  imports Main
begin

section \<open>Data model\<close>

text \<open>
  A batch is a pandas DataFrame: its column names and its rows, a row being the list of
  its cells. A cell is \<open>None\<close> when pandas reports it as null (\<open>isnull()\<close>), and
  holds its text otherwise.
\<close>

type_synonym cell = "string option"

record frame =
  columns :: "string list"
  rows :: "cell list list"

text \<open>
  Python exceptions. \<open>except Exception\<close> catches the instances of \<open>Exception\<close>
  only; \<open>KeyboardInterrupt\<close>, \<open>SystemExit\<close> and \<open>GeneratorExit\<close> derive from
  \<open>BaseException\<close> directly and pass through it.
\<close>

datatype exn = Exception string | BaseException string

text \<open>
  The output file is the list of the CSV records written to it: a header record carries
  the column names, a data record the cells of one row.
\<close>

datatype line = Header "string list" | Data "cell list"

text \<open>
  Log records. The timestamps and the elapsed times of the messages are left out: they
  are wall-clock readings.
\<close>

datatype event =
    Info_Iniciando
  | Info_Encoding_detectado "string option"
  | Info_Lendo_CSV "string option"
  | Info_Lido_chunk int int
  | Info_Chunk_processado int int int
  | Error_Erro_no_chunk int exn
  | Info_Concluido
  | Info_Total_chunks int
  | Info_Total_linhas int
  | Info_Total_nulos int
  | Info_Tempo_total

text \<open>
  The configuration held by a \<open>ChunkProcessor\<close>: the transform functions, each of
  which returns a batch or raises, and the chunk size.
\<close>

record ChunkProcessor =
  processing_funcs :: "(frame \<Rightarrow> exn + frame) list"
  chunk_size :: int

text \<open>
  What the run meets outside the program:
  \<^item> \<open>out_before\<close>: the content of the output file when the run starts;
  \<^item> \<open>out_open\<close>: the exception of \<open>open(self.output_file, 'w')\<close>, if it raises;
  \<^item> \<open>detect\<close>: the outcome of \<open>detect_encoding\<close> (opening and sampling the input
    file, then \<open>chardet.detect\<close>, whose label may be \<open>None\<close>);
  \<^item> \<open>reader\<close>: the outcome of \<open>pd.read_csv(..., chunksize=...)\<close>: it raises, or
    gives the batches the iteration yields, followed by the exception that ends the
    iteration if the parser raises on a later part of the file;
  \<^item> \<open>write_fault\<close>: for the batch with the given number, whether \<open>to_csv\<close> raises,
    and after how many records of its output have reached the file;
  \<^item> \<open>out_close\<close>: the exception of the flush and close of the output stream when
    the \<open>with\<close> block is left, if it raises.
\<close>

record world =
  out_before :: "line list"
  out_open :: "exn option"
  detect :: "exn + string option"
  reader :: "exn + frame list \<times> exn option"
  write_fault :: "int \<Rightarrow> (nat \<times> exn) option"
  out_close :: "exn option"

text \<open>
  The local variables of \<open>process\<close>, the output stream (the records written to
  \<open>f_out\<close>) and the log. The counters are
  Python integers; the null count of a batch is a 64-bit numpy integer, which no file
  brings near its bound, so all of them are modelled as unbounded integers.
\<close>

record state =
  f_out :: "line list"
  logger :: "event list"
  chunk_number :: int
  total_rows :: int
  total_nulls :: int
  header_written :: bool

section \<open>The operations\<close>

text \<open>\<open>len(chunk)\<close> and \<open>chunk.isnull().sum().sum()\<close>.\<close>

definition len :: "frame \<Rightarrow> int" where
  "len chunk = int (length (rows chunk))"

definition isnull_sum_sum :: "frame \<Rightarrow> int" where
  "isnull_sum_sum chunk = sum_list (map (\<lambda>r. int (length (filter (\<lambda>x. x = None) r))) (rows chunk))"

text \<open>
  \<open>chunk.to_csv(f_out, index=False, header=h)\<close>: the records appended to the stream,
  the header first when \<open>h\<close> holds, then one record per row, in order.
\<close>

definition to_csv :: "frame \<Rightarrow> bool \<Rightarrow> line list" where
  "to_csv chunk h = (if h then [Header (columns chunk)] else []) @ map Data (rows chunk)"

text \<open>
  \<open>apply_processing_funcs\<close>: the loop over \<open>self.processing_funcs\<close>; an exception of
  a function leaves the loop.
\<close>

fun apply_processing_funcs :: "(frame \<Rightarrow> exn + frame) list \<Rightarrow> frame \<Rightarrow> exn + frame" where
  "apply_processing_funcs [] chunk = Inr chunk"
| "apply_processing_funcs (func # funcs) chunk =
     (case func chunk of
        Inl e \<Rightarrow> Inl e
      | Inr chunk' \<Rightarrow> apply_processing_funcs funcs chunk')"

text \<open>
  \<open>read_chunks\<close> is a generator. Its run is: the records it logs before the first
  batch, the batches it yields, each with the record logged just before the yield, and
  the exception that ends it, if any.
\<close>

record chunk_gen =
  preamble :: "event list"
  items :: "(event \<times> frame) list"
  ending :: "exn option"

fun enumerate_from :: "int \<Rightarrow> 'a list \<Rightarrow> (int \<times> 'a) list" where
  "enumerate_from i [] = []"
| "enumerate_from i (x # xs) = (i, x) # enumerate_from (i + 1) xs"

definition read_chunks :: "world \<Rightarrow> chunk_gen" where
  "read_chunks w =
     (case detect w of
        Inl e \<Rightarrow> \<lparr>preamble = [], items = [], ending = Some e\<rparr>
      | Inr encoding \<Rightarrow>
          (case reader w of
             Inl e \<Rightarrow>
               \<lparr>preamble = [Info_Encoding_detectado encoding, Info_Lendo_CSV encoding],
                items = [], ending = Some e\<rparr>
           | Inr (chunks, stop) \<Rightarrow>
               \<lparr>preamble = [Info_Encoding_detectado encoding, Info_Lendo_CSV encoding],
                items = map (\<lambda>(i, chunk). (Info_Lido_chunk i (len chunk), chunk))
                          (enumerate_from 1 chunks),
                ending = stop\<rparr>))"

text \<open>
  The \<open>except Exception as e\<close> clause of \<open>process\<close>: an instance of \<open>Exception\<close>
  is logged with the chunk number and the loop goes on; anything else propagates.
\<close>

fun except_Exception :: "exn \<Rightarrow> state \<Rightarrow> state \<times> exn option" where
  "except_Exception (Exception m) s =
     (s\<lparr>logger := logger s @ [Error_Erro_no_chunk (chunk_number s) (Exception m)]\<rparr>, None)"
| "except_Exception (BaseException m) s = (s, Some (BaseException m))"

text \<open>The body of the \<open>for\<close> loop of \<open>process\<close>, for one batch.\<close>

definition loop_body :: "ChunkProcessor \<Rightarrow> world \<Rightarrow> frame \<Rightarrow> state \<Rightarrow> state \<times> exn option" where
  "loop_body self w chunk0 s0 =
     (let s = s0\<lparr>chunk_number := chunk_number s0 + 1\<rparr> in
      case apply_processing_funcs (processing_funcs self) chunk0 of
        Inl e \<Rightarrow> except_Exception e s
      | Inr chunk \<Rightarrow>
          (case write_fault w (chunk_number s) of
             Some (k, e) \<Rightarrow>
               except_Exception e
                 (s\<lparr>f_out := f_out s @ take k (to_csv chunk (\<not> header_written s))\<rparr>)
           | None \<Rightarrow>
               (let s1 = s\<lparr>f_out := f_out s @ to_csv chunk (\<not> header_written s),
                           header_written := True\<rparr>;
                    num_rows = len chunk;
                    num_nulls = isnull_sum_sum chunk;
                    s2 = s1\<lparr>total_rows := total_rows s1 + num_rows,
                            total_nulls := total_nulls s1 + num_nulls\<rparr>
                in (s2\<lparr>logger := logger s2 @
                          [Info_Chunk_processado (chunk_number s2) num_rows num_nulls]\<rparr>,
                    None))))"

text \<open>
  The \<open>for\<close> loop: each item of the generator logs its record, then the body runs; an
  exception that leaves the body ends the loop.
\<close>

fun for_chunks :: "ChunkProcessor \<Rightarrow> world \<Rightarrow> (event \<times> frame) list \<Rightarrow> state \<Rightarrow> state \<times> exn option" where
  "for_chunks self w [] s = (s, None)"
| "for_chunks self w ((ev, chunk) # rest) s =
     (case loop_body self w chunk (s\<lparr>logger := logger s @ [ev]\<rparr>) of
        (s', Some e) \<Rightarrow> (s', Some e)
      | (s', None) \<Rightarrow> for_chunks self w rest s')"

text \<open>
  Leaving the \<open>with\<close> block flushes and closes the output stream, whether the block
  ends normally or by an exception. This is outside the \<open>try\<close> of the loop body, so
  an exception raised here leaves \<open>process\<close>, in place of the exception that ended
  the block, if any. The flush writes the records still buffered: it raises only when
  records were written to the stream.
\<close>

definition close_stream :: "world \<Rightarrow> state \<Rightarrow> exn option" where
  "close_stream w s = (if f_out s = [] then None else out_close w)"

text \<open>
  \<open>process\<close>: the final state and the exception that leaves the call, if any. Opening
  the output with mode \<open>'w'\<close> truncates it; the generator starts at the first iteration
  of the loop, after the output is open. The block of the \<open>with\<close> ends by the exception
  that left the loop body, or by the one that ended the generator, or normally; then the
  stream is closed, and the summary is logged when no exception is under way.
\<close>

definition process :: "ChunkProcessor \<Rightarrow> world \<Rightarrow> state \<times> exn option" where
  "process self w =
     (let s0 = \<lparr>f_out = out_before w, logger = [Info_Iniciando], chunk_number = 0,
                total_rows = 0, total_nulls = 0, header_written = False\<rparr> in
      case out_open w of
        Some e \<Rightarrow> (s0, Some e)
      | None \<Rightarrow>
          (let g = read_chunks w;
               s1 = s0\<lparr>f_out := [], logger := logger s0 @ preamble g\<rparr> in
           case for_chunks self w (items g) s1 of
             (s2, r) \<Rightarrow>
               (case close_stream w s2 of
                  Some e \<Rightarrow> (s2, Some e)
                | None \<Rightarrow>
                    (case (case r of Some e \<Rightarrow> Some e | None \<Rightarrow> ending g) of
                       Some e \<Rightarrow> (s2, Some e)
                     | None \<Rightarrow>
                         (s2\<lparr>logger := logger s2 @
                               [Info_Concluido, Info_Total_chunks (chunk_number s2),
                                Info_Total_linhas (total_rows s2),
                                Info_Total_nulos (total_nulls s2), Info_Tempo_total]\<rparr>,
                          None)))))"

section \<open>Notions used to state the properties\<close>

text \<open>
  The transform pipeline in the words of its contract: the functions are applied in the
  configured order, the output of each being the input of the next; a function that
  raises ends the application with its exception.
\<close>

definition then_apply :: "exn + frame \<Rightarrow> (frame \<Rightarrow> exn + frame) \<Rightarrow> exn + frame" where
  "then_apply r func = (case r of Inl e \<Rightarrow> Inl e | Inr chunk \<Rightarrow> func chunk)"

definition in_configured_order :: "(frame \<Rightarrow> exn + frame) list \<Rightarrow> frame \<Rightarrow> exn + frame" where
  "in_configured_order funcs chunk = foldl then_apply (Inr chunk) funcs"

text \<open>
  A numbered batch is processed successfully when the pipeline returns a batch and the
  write of that batch does not raise; \<open>processed\<close> is then the transformed batch.
\<close>

definition processed :: "ChunkProcessor \<Rightarrow> world \<Rightarrow> int \<times> frame \<Rightarrow> frame option" where
  "processed self w b =
     (case apply_processing_funcs (processing_funcs self) (snd b) of
        Inl e \<Rightarrow> None
      | Inr chunk \<Rightarrow> (case write_fault w (fst b) of Some f \<Rightarrow> None | None \<Rightarrow> Some chunk))"

text \<open>
  The records that the write of a numbered batch puts in the file when it is called with
  \<open>header=h\<close>: nothing when the pipeline raises, the records that reached the file
  before the exception when the write raises, all of them otherwise.
\<close>

definition written :: "ChunkProcessor \<Rightarrow> world \<Rightarrow> bool \<Rightarrow> int \<times> frame \<Rightarrow> line list" where
  "written self w h b =
     (case apply_processing_funcs (processing_funcs self) (snd b) of
        Inl e \<Rightarrow> []
      | Inr chunk \<Rightarrow>
          (case write_fault w (fst b) of
             Some (k, e) \<Rightarrow> take k (to_csv chunk h)
           | None \<Rightarrow> to_csv chunk h))"

text \<open>
  The batches that the Reader yields, numbered from 1, and those of them that the loop
  got to: the first \<open>chunk_number\<close> ones, \<open>chunk_number\<close> being read at the end of
  the run.
\<close>

definition batches :: "world \<Rightarrow> (int \<times> frame) list" where
  "batches w = enumerate_from 1 (map snd (items (read_chunks w)))"

definition attempted :: "ChunkProcessor \<Rightarrow> world \<Rightarrow> (int \<times> frame) list" where
  "attempted self w = take (nat (chunk_number (fst (process self w)))) (batches w)"

fun is_header :: "line \<Rightarrow> bool" where
  "is_header (Header cols) = True"
| "is_header (Data r) = False"

text \<open>
  Modelled from the spec: \<open>pd.read_csv(path, chunksize=C)\<close>, the parser that
  \<open>read_chunks\<close> iterates over, is a library outside the repository. The spec has it
  yield the rows of the file in batches of \<open>C\<close> consecutive rows, in file order, the last
  batch holding the rows that remain; every batch carries the columns of the header row.
  The spec takes \<open>C\<close> positive; for \<open>C = 0\<close> the function below yields nothing.
\<close>

function chunk_rows :: "nat \<Rightarrow> 'a list \<Rightarrow> 'a list list" where
  "chunk_rows C rs = (if C = 0 \<or> rs = [] then [] else take C rs # chunk_rows C (drop C rs))"
  by pat_completeness auto
termination
  by (relation "measure (\<lambda>(C, rs). length rs)") auto

declare chunk_rows.simps [simp del]

text \<open>
  Modelled from the spec: the batches that the parser yields for a file whose header row
  is \<open>cols\<close> and whose data rows are \<open>rs\<close>, read with chunk size \<open>C\<close>.
\<close>

definition read_csv :: "string list \<Rightarrow> cell list list \<Rightarrow> int \<Rightarrow> frame list" where
  "read_csv cols rs C = map (\<lambda>r. \<lparr>columns = cols, rows = r\<rparr>) (chunk_rows (nat C) rs)"

text \<open>
  The records that a sequence of numbered batches puts in the file, \<open>hw\<close> being the
  header flag before the first of them: the flag is set by the first batch that is
  processed successfully.
\<close>

fun emitted :: "ChunkProcessor \<Rightarrow> world \<Rightarrow> bool \<Rightarrow> (int \<times> frame) list \<Rightarrow> line list" where
  "emitted self w hw [] = []"
| "emitted self w hw (b # bs) =
     written self w (\<not> hw) b @ emitted self w (hw \<or> processed self w b \<noteq> None) bs"

text \<open>The chunk numbers of the error records of a log, in the order of the log.\<close>

fun error_numbers :: "event list \<Rightarrow> int list" where
  "error_numbers [] = []"
| "error_numbers (Error_Erro_no_chunk i e # evs) = i # error_numbers evs"
| "error_numbers (ev # evs) = error_numbers evs"

section \<open>Example runs\<close>

text \<open>
  A batch of two rows with one null cell, and a batch of one row without nulls.
\<close>

definition chunk_a :: frame where
  "chunk_a = \<lparr>columns = [''a'', ''b''], rows = [[Some ''1'', None], [Some ''2'', Some ''3'']]\<rparr>"

definition chunk_b :: frame where
  "chunk_b = \<lparr>columns = [''a'', ''b''], rows = [[Some ''4'', Some ''5'']]\<rparr>"

text \<open>
  Transform functions: one drops the rows that have a null cell, one raises on a batch
  that has a null cell, one raises on every batch, one is interrupted from the keyboard,
  one adds a row to the batch.
\<close>

definition dropna :: "frame \<Rightarrow> exn + frame" where
  "dropna chunk = Inr (chunk\<lparr>rows := filter (\<lambda>r. None \<notin> set r) (rows chunk)\<rparr>)"

definition reject_nulls :: "frame \<Rightarrow> exn + frame" where
  "reject_nulls chunk =
     (if isnull_sum_sum chunk = 0 then Inr chunk else Inl (Exception ''null cell''))"

definition always_raises :: "frame \<Rightarrow> exn + frame" where
  "always_raises chunk = Inl (Exception ''boom'')"

definition interrupted :: "frame \<Rightarrow> exn + frame" where
  "interrupted chunk = Inl (BaseException ''KeyboardInterrupt'')"

definition add_row :: "frame \<Rightarrow> exn + frame" where
  "add_row chunk = Inr (chunk\<lparr>rows := rows chunk @ [[Some ''0'', Some ''0'']]\<rparr>)"

definition with_funcs :: "(frame \<Rightarrow> exn + frame) list \<Rightarrow> ChunkProcessor" where
  "with_funcs funcs = \<lparr>processing_funcs = funcs, chunk_size = 1000\<rparr>"

text \<open>
  A world in which the input opens, the Reader yields the given batches and stops, the
  output opens and closes, and the writes raise as \<open>faults\<close> says.
\<close>

definition world_of :: "frame list \<Rightarrow> (int \<Rightarrow> (nat \<times> exn) option) \<Rightarrow> world" where
  "world_of chunks faults =
     \<lparr>out_before = [], out_open = None, detect = Inr (Some ''utf-8''),
      reader = Inr (chunks, None), write_fault = faults, out_close = None\<rparr>"

definition no_fault :: "int \<Rightarrow> (nat \<times> exn) option" where
  "no_fault n = None"

definition fault_at :: "int \<Rightarrow> nat \<Rightarrow> int \<Rightarrow> (nat \<times> exn) option" where
  "fault_at i k n = (if n = i then Some (k, Exception ''No space left on device'') else None)"

definition state0 :: state where
  "state0 = \<lparr>f_out = [], logger = [], chunk_number = 0, total_rows = 0, total_nulls = 0,
             header_written = False\<rparr>"

text \<open>A file of one column and five rows, and the world in which it is read.\<close>

definition rows5 :: "cell list list" where
  "rows5 = [[Some ''1''], [Some ''2''], [Some ''3''], [Some ''4''], [Some ''5'']]"

definition world_csv :: "string list \<Rightarrow> cell list list \<Rightarrow> int \<Rightarrow> world" where
  "world_csv cols rs C = world_of (read_csv cols rs C) no_fault"

text \<open>
  A file that has a header row and no data row. pandas yields one batch for it: the first
  read of its parser returns the frame of the header's columns, with no row, and the
  iteration stops after it.
\<close>

definition header_only :: "string list \<Rightarrow> world" where
  "header_only cols = world_of [\<lparr>columns = cols, rows = []\<rparr>] no_fault"

section \<open>The transform pipeline\<close>

lemma foldl_then_apply_Inl: "foldl then_apply (Inl e) funcs = Inl e"
  by (induction funcs) (simp_all add: then_apply_def)

lemma apply_processing_funcs_fold:
  "apply_processing_funcs funcs chunk = in_configured_order funcs chunk"
  unfolding in_configured_order_def
  by (induction funcs arbitrary: chunk)
     (auto simp: then_apply_def foldl_then_apply_Inl split: sum.splits)

lemma apply_processing_funcs_pure:
  "apply_processing_funcs (map (\<lambda>g. Inr \<circ> g) gs) chunk = Inr (foldl (\<lambda>c g. g c) chunk gs)"
  by (induction gs arbitrary: chunk) simp_all

text \<open>
  C7. \<open>apply_processing_funcs\<close> applies the configured functions in order, each to the
  output of the one before: it is the left-to-right composition of the list, for
  functions that may raise (the first exception is the result) and for functions that
  always return (three of them give \<open>f3 (f2 (f1 b))\<close>); on the empty list it returns
  the batch unchanged.
\<close>

theorem C7_apply_processing_funcs_in_order:
  "apply_processing_funcs funcs b = in_configured_order funcs b
   \<and> apply_processing_funcs (map (\<lambda>g. Inr \<circ> g) gs) b = Inr (foldl (\<lambda>c g. g c) b gs)
   \<and> apply_processing_funcs [Inr \<circ> f1, Inr \<circ> f2, Inr \<circ> f3] b = Inr (f3 (f2 (f1 b)))
   \<and> apply_processing_funcs [] b = Inr b"
proof (intro conjI)
  show "apply_processing_funcs funcs b = in_configured_order funcs b"
    by (rule apply_processing_funcs_fold)
  show "apply_processing_funcs (map (\<lambda>g. Inr \<circ> g) gs) b = Inr (foldl (\<lambda>c g. g c) b gs)"
    by (rule apply_processing_funcs_pure)
  show "apply_processing_funcs [Inr \<circ> f1, Inr \<circ> f2, Inr \<circ> f3] b = Inr (f3 (f2 (f1 b)))"
    by simp
  show "apply_processing_funcs [] b = Inr b"
    by simp
qed

section \<open>One batch\<close>

lemma except_Exception_fields:
  "except_Exception e s = (s', r) \<Longrightarrow>
     chunk_number s' = chunk_number s \<and> total_rows s' = total_rows s \<and>
     total_nulls s' = total_nulls s \<and> header_written s' = header_written s \<and>
     f_out s' = f_out s"
  by (cases e) auto

lemma loop_body_fields:
  assumes "loop_body self w chunk s = (s', r)"
  shows "chunk_number s' = chunk_number s + 1"
    and "total_rows s' = total_rows s +
           (case processed self w (chunk_number s + 1, chunk) of None \<Rightarrow> 0 | Some c \<Rightarrow> len c)"
    and "total_nulls s' = total_nulls s +
           (case processed self w (chunk_number s + 1, chunk) of
              None \<Rightarrow> 0 | Some c \<Rightarrow> isnull_sum_sum c)"
    and "header_written s' =
           (header_written s \<or> processed self w (chunk_number s + 1, chunk) \<noteq> None)"
    and "f_out s' = f_out s @ written self w (\<not> header_written s) (chunk_number s + 1, chunk)"
  using assms
  by (auto simp: loop_body_def processed_def written_def Let_def
           split: sum.splits option.splits prod.splits dest!: except_Exception_fields)

section \<open>The loop and the run\<close>

lemma length_enumerate_from: "length (enumerate_from i xs) = length xs"
  by (induction xs arbitrary: i) simp_all

lemma for_chunks_run:
  "for_chunks self w its s = (s', r) \<Longrightarrow>
   \<exists>k \<le> length its.
     chunk_number s' = chunk_number s + int k \<and> (r = None \<longrightarrow> k = length its) \<and>
     total_rows s' = total_rows s + sum_list (map len (List.map_filter (processed self w)
        (take k (enumerate_from (chunk_number s + 1) (map snd its))))) \<and>
     total_nulls s' = total_nulls s + sum_list (map isnull_sum_sum (List.map_filter (processed self w)
        (take k (enumerate_from (chunk_number s + 1) (map snd its))))) \<and>
     header_written s' = (header_written s \<or> List.map_filter (processed self w)
        (take k (enumerate_from (chunk_number s + 1) (map snd its))) \<noteq> []) \<and>
     f_out s' = f_out s @ emitted self w (header_written s)
        (take k (enumerate_from (chunk_number s + 1) (map snd its)))"
proof (induction its arbitrary: s s' r)
  case Nil
  then show ?case by simp
next
  case (Cons it its)
  obtain ev chunk where it: "it = (ev, chunk)" by (cases it)
  let ?s0 = "s\<lparr>logger := logger s @ [ev]\<rparr>"
  obtain s1 r1 where body: "loop_body self w chunk ?s0 = (s1, r1)" by (cases "loop_body self w chunk ?s0")
  note f = loop_body_fields [OF body]
  let ?b = "(chunk_number s + 1, chunk)"
  show ?case
  proof (cases r1)
    case (Some e)
    with Cons.prems it body have "s' = s1" "r = Some e" by auto
    with f show ?thesis
      unfolding it
      by (intro exI [of _ "Suc 0"]) (auto split: option.splits)
  next
    case None
    with Cons.prems it body have rest: "for_chunks self w its s1 = (s', r)" by auto
    from Cons.IH [OF rest] obtain k where k: "k \<le> length its"
      "chunk_number s' = chunk_number s1 + int k" "r = None \<longrightarrow> k = length its"
      "total_rows s' = total_rows s1 + sum_list (map len (List.map_filter (processed self w)
        (take k (enumerate_from (chunk_number s1 + 1) (map snd its)))))"
      "total_nulls s' = total_nulls s1 + sum_list (map isnull_sum_sum (List.map_filter (processed self w)
        (take k (enumerate_from (chunk_number s1 + 1) (map snd its)))))"
      "header_written s' = (header_written s1 \<or> List.map_filter (processed self w)
        (take k (enumerate_from (chunk_number s1 + 1) (map snd its))) \<noteq> [])"
      "f_out s' = f_out s1 @ emitted self w (header_written s1)
        (take k (enumerate_from (chunk_number s1 + 1) (map snd its)))"
      by blast
    with f show ?thesis
      unfolding it
      by (intro exI [of _ "Suc k"]) (auto split: option.splits)
  qed
qed

lemma process_open_fails:
  "out_open w = Some e \<Longrightarrow>
     process self w =
       (\<lparr>f_out = out_before w, logger = [Info_Iniciando], chunk_number = 0,
         total_rows = 0, total_nulls = 0, header_written = False\<rparr>, Some e)"
  by (simp add: process_def)

lemma process_run:
  assumes "out_open w = None"
  shows "total_rows (fst (process self w)) =
           sum_list (map len (List.map_filter (processed self w) (attempted self w)))"
    and "total_nulls (fst (process self w)) =
           sum_list (map isnull_sum_sum (List.map_filter (processed self w) (attempted self w)))"
    and "header_written (fst (process self w)) =
           (List.map_filter (processed self w) (attempted self w) \<noteq> [])"
    and "f_out (fst (process self w)) = emitted self w False (attempted self w)"
    and "snd (process self w) = None \<Longrightarrow> attempted self w = batches w"
proof -
  let ?g = "read_chunks w"
  let ?s1 = "\<lparr>f_out = [], logger = [Info_Iniciando] @ preamble ?g, chunk_number = 0,
              total_rows = 0, total_nulls = 0, header_written = False\<rparr>"
  obtain s2 r where loop: "for_chunks self w (items ?g) ?s1 = (s2, r)"
    by (cases "for_chunks self w (items ?g) ?s1")
  from for_chunks_run [OF loop] obtain k where k: "k \<le> length (items ?g)"
      "chunk_number s2 = int k" "r = None \<longrightarrow> k = length (items ?g)"
      "total_rows s2 = sum_list (map len (List.map_filter (processed self w)
        (take k (batches w))))"
      "total_nulls s2 = sum_list (map isnull_sum_sum (List.map_filter (processed self w)
        (take k (batches w))))"
      "header_written s2 = (List.map_filter (processed self w) (take k (batches w)) \<noteq> [])"
      "f_out s2 = emitted self w False (take k (batches w))"
    by (auto simp: batches_def)
  have p: "process self w =
             (case close_stream w s2 of
                Some e \<Rightarrow> (s2, Some e)
              | None \<Rightarrow>
                  (case (case r of Some e \<Rightarrow> Some e | None \<Rightarrow> ending ?g) of
                     Some e \<Rightarrow> (s2, Some e)
                   | None \<Rightarrow> (s2\<lparr>logger := logger s2 @
                          [Info_Concluido, Info_Total_chunks (chunk_number s2),
                           Info_Total_linhas (total_rows s2),
                           Info_Total_nulos (total_nulls s2), Info_Tempo_total]\<rparr>, None)))"
    using assms loop by (simp add: process_def Let_def)
  have cn: "chunk_number (fst (process self w)) = int k"
    using k(2) by (simp add: p split: option.splits)
  have att: "attempted self w = take k (batches w)"
    by (simp add: attempted_def cn)
  show "total_rows (fst (process self w)) =
           sum_list (map len (List.map_filter (processed self w) (attempted self w)))"
    using k(4) by (simp add: att p split: option.splits)
  show "total_nulls (fst (process self w)) =
           sum_list (map isnull_sum_sum (List.map_filter (processed self w) (attempted self w)))"
    using k(5) by (simp add: att p split: option.splits)
  show "header_written (fst (process self w)) =
           (List.map_filter (processed self w) (attempted self w) \<noteq> [])"
    using k(6) by (simp add: att p split: option.splits)
  show "f_out (fst (process self w)) = emitted self w False (attempted self w)"
    using k(7) by (simp add: att p split: option.splits)
  have len_b: "length (batches w) = length (items ?g)"
    by (simp add: batches_def length_enumerate_from)
  show "attempted self w = batches w" if "snd (process self w) = None"
  proof -
    from that have "r = None" by (simp add: p split: option.splits)
    with k(3) len_b show ?thesis by (simp add: att)
  qed
qed

lemma len_nonneg: "0 \<le> len c" by (simp add: len_def)
lemma isnull_sum_sum_nonneg: "0 \<le> isnull_sum_sum c"
  unfolding isnull_sum_sum_def by (rule sum_list_nonneg) auto

lemma for_chunks_append:
  "for_chunks self w (xs @ ys) s =
     (case for_chunks self w xs s of
        (s', Some e) \<Rightarrow> (s', Some e)
      | (s', None) \<Rightarrow> for_chunks self w ys s')"
  by (induction xs arbitrary: s) (auto split: prod.splits option.splits)

lemma for_chunks_totals_mono:
  "total_rows s \<le> total_rows (fst (for_chunks self w its s))"
  "total_nulls s \<le> total_nulls (fst (for_chunks self w its s))"
proof -
  obtain s' r where run: "for_chunks self w its s = (s', r)"
    by (cases "for_chunks self w its s")
  from for_chunks_run [OF run] obtain k where
    "total_rows s' = total_rows s + sum_list (map len (List.map_filter (processed self w)
        (take k (enumerate_from (chunk_number s + 1) (map snd its)))))"
    "total_nulls s' = total_nulls s + sum_list (map isnull_sum_sum (List.map_filter (processed self w)
        (take k (enumerate_from (chunk_number s + 1) (map snd its)))))"
    by blast
  moreover have "0 \<le> sum_list (map len xs)" for xs
    by (rule sum_list_nonneg) (auto simp: len_nonneg)
  moreover have "0 \<le> sum_list (map isnull_sum_sum xs)" for xs
    by (rule sum_list_nonneg) (auto simp: isnull_sum_sum_nonneg)
  ultimately show "total_rows s \<le> total_rows (fst (for_chunks self w its s))"
    "total_nulls s \<le> total_nulls (fst (for_chunks self w its s))"
    using run by simp_all
qed

lemma for_chunks_prefix_mono:
  "total_rows (fst (for_chunks self w (take n its) s))
     \<le> total_rows (fst (for_chunks self w (take (Suc n) its) s))"
  "total_nulls (fst (for_chunks self w (take n its) s))
     \<le> total_nulls (fst (for_chunks self w (take (Suc n) its) s))"
proof -
  have split: "take (Suc n) its = take n its @ take 1 (drop n its)"
    by (metis One_nat_def add.commute plus_1_eq_Suc take_add)
  obtain s' r where run: "for_chunks self w (take n its) s = (s', r)"
    by (cases "for_chunks self w (take n its) s")
  show "total_rows (fst (for_chunks self w (take n its) s))
     \<le> total_rows (fst (for_chunks self w (take (Suc n) its) s))"
    unfolding split for_chunks_append run
    by (cases r) (simp_all add: for_chunks_totals_mono)
  show "total_nulls (fst (for_chunks self w (take n its) s))
     \<le> total_nulls (fst (for_chunks self w (take (Suc n) its) s))"
    unfolding split for_chunks_append run
    by (cases r) (simp_all add: for_chunks_totals_mono)
qed

section \<open>Evaluation on the example runs\<close>

lemmas example_defs = with_funcs_def world_of_def no_fault_def fault_at_def chunk_a_def
  chunk_b_def dropna_def reject_nulls_def always_raises_def interrupted_def add_row_def
  state0_def header_only_def

lemmas run_defs = process_def close_stream_def read_chunks_def loop_body_def Let_def to_csv_def
  len_def
  isnull_sum_sum_def

lemmas notion_defs = attempted_def batches_def processed_def written_def

section \<open>Statistics of one batch\<close>

text \<open>
  C9. When the pipeline returns a batch and its write does not raise, the row count and
  the null-cell count added to the totals, and logged, are those of the batch the
  pipeline returned, which is also the batch written: not those of the batch as read.
\<close>

theorem C9_statistics_of_the_transformed_batch:
  assumes "apply_processing_funcs (processing_funcs self) chunk = Inr chunk'"
    and "write_fault w (chunk_number s + 1) = None"
  shows "total_rows (fst (loop_body self w chunk s)) = total_rows s + len chunk'
    \<and> total_nulls (fst (loop_body self w chunk s)) = total_nulls s + isnull_sum_sum chunk'
    \<and> f_out (fst (loop_body self w chunk s)) = f_out s @ to_csv chunk' (\<not> header_written s)
    \<and> logger (fst (loop_body self w chunk s)) =
         logger s @ [Info_Chunk_processado (chunk_number s + 1) (len chunk') (isnull_sum_sum chunk')]"
  using assms by (simp add: loop_body_def Let_def)

text \<open>
  The theorem of C9 at a batch of two rows and one null cell, with a transform that
  drops the rows holding a null: one row and no null are counted.
\<close>

theorem C9_witness:
  "len chunk_a = 2 \<and> isnull_sum_sum chunk_a = 1
   \<and> apply_processing_funcs (processing_funcs (with_funcs [dropna])) chunk_a =
       Inr \<lparr>columns = [''a'', ''b''], rows = [[Some ''2'', Some ''3'']]\<rparr>
   \<and> total_rows (fst (loop_body (with_funcs [dropna]) (world_of [chunk_a] no_fault) chunk_a state0)) = 1
   \<and> total_nulls (fst (loop_body (with_funcs [dropna]) (world_of [chunk_a] no_fault) chunk_a state0)) = 0
   \<and> f_out (fst (loop_body (with_funcs [dropna]) (world_of [chunk_a] no_fault) chunk_a state0)) =
       [Header [''a'', ''b''], Data [Some ''2'', Some ''3'']]
   \<and> total_rows (fst (process (with_funcs [dropna]) (world_of [chunk_a] no_fault))) = 1
   \<and> total_nulls (fst (process (with_funcs [dropna]) (world_of [chunk_a] no_fault))) = 0"
proof -
  have a: "apply_processing_funcs (processing_funcs (with_funcs [dropna])) chunk_a =
       Inr \<lparr>columns = [''a'', ''b''], rows = [[Some ''2'', Some ''3'']]\<rparr>"
    by (simp add: example_defs)
  have b: "write_fault (world_of [chunk_a] no_fault) (chunk_number state0 + 1) = None"
    by (simp add: example_defs)
  have c: "total_rows (fst (process (with_funcs [dropna]) (world_of [chunk_a] no_fault))) = 1
    \<and> total_nulls (fst (process (with_funcs [dropna]) (world_of [chunk_a] no_fault))) = 0"
    by (simp add: example_defs run_defs)
  have d: "len chunk_a = 2 \<and> isnull_sum_sum chunk_a = 1"
    by (simp add: example_defs len_def isnull_sum_sum_def)
  show ?thesis
    using C9_statistics_of_the_transformed_batch [OF a b] a c d
    by (simp add: state0_def len_def isnull_sum_sum_def to_csv_def)
qed

section \<open>Failures of a batch\<close>

lemma map_snd_enumerate_from: "map snd (enumerate_from i xs) = xs"
  by (induction xs arbitrary: i) simp_all

lemma snd_Lido_chunk:
  "snd \<circ> (\<lambda>(i, chunk). (Info_Lido_chunk i (len chunk), chunk)) = snd"
  by (rule ext) (simp add: case_prod_beta)

lemma read_chunks_yields:
  "detect w = Inr enc \<Longrightarrow> reader w = Inr (chunks, stop) \<Longrightarrow>
     map snd (items (read_chunks w)) = chunks \<and> ending (read_chunks w) = stop"
  by (simp add: read_chunks_def snd_Lido_chunk map_snd_enumerate_from)

lemma loop_body_caught:
  assumes "\<forall>m. apply_processing_funcs (processing_funcs self) chunk \<noteq> Inl (BaseException m)"
    and "\<forall>n k m. write_fault w n \<noteq> Some (k, BaseException m)"
  shows "snd (loop_body self w chunk s) = None"
proof (cases "apply_processing_funcs (processing_funcs self) chunk")
  case (Inl e)
  with assms(1) obtain m where "e = Exception m" by (cases e) auto
  with Inl show ?thesis by (simp add: loop_body_def Let_def)
next
  case (Inr chunk')
  show ?thesis
  proof (cases "write_fault w (chunk_number s + 1)")
    case None
    with Inr show ?thesis by (simp add: loop_body_def Let_def)
  next
    case (Some f)
    obtain k e where f: "f = (k, e)" by (cases f)
    with Some assms(2) obtain m where "e = Exception m" by (cases e) auto
    with Inr Some f show ?thesis by (simp add: loop_body_def Let_def)
  qed
qed

lemma for_chunks_caught:
  assumes "\<forall>c\<in>set (map snd its). \<forall>m.
             apply_processing_funcs (processing_funcs self) c \<noteq> Inl (BaseException m)"
    and "\<forall>n k m. write_fault w n \<noteq> Some (k, BaseException m)"
  shows "snd (for_chunks self w its s) = None
    \<and> chunk_number (fst (for_chunks self w its s)) = chunk_number s + int (length its)"
  using assms(1)
proof (induction its arbitrary: s)
  case Nil
  then show ?case by simp
next
  case (Cons it its)
  obtain ev chunk where it: "it = (ev, chunk)" by (cases it)
  let ?s0 = "s\<lparr>logger := logger s @ [ev]\<rparr>"
  obtain s1 r1 where body: "loop_body self w chunk ?s0 = (s1, r1)"
    by (cases "loop_body self w chunk ?s0")
  from Cons.prems it
  have "\<forall>m. apply_processing_funcs (processing_funcs self) chunk \<noteq> Inl (BaseException m)"
    by simp
  from loop_body_caught [OF this assms(2), of ?s0] body have r1: "r1 = None" by simp
  from loop_body_fields(1) [OF body] have cn: "chunk_number s1 = chunk_number s + 1" by simp
  from Cons.prems have "\<forall>c\<in>set (map snd its). \<forall>m.
             apply_processing_funcs (processing_funcs self) c \<noteq> Inl (BaseException m)"
    by simp
  from Cons.IH [OF this, of s1] show ?case
    using it body r1 cn by simp
qed

text \<open>
  C1, as amended. An instance of \<open>Exception\<close> raised by the pipeline is logged with
  the batch number, and leaves the totals, the header flag and the output file as they
  were. One raised by the write is logged in the same way and leaves the totals and the
  flag as they were; the file keeps the records that reached it before the exception.
  In both cases the loop goes on. When the output opens and closes, the encoding is
  detected, the parser starts and no exception of another class than \<open>Exception\<close> is
  raised by the pipeline or the write, every batch the Reader yields is attempted, and
  \<open>process\<close> ends as the Reader does: normally, or with the exception the Reader
  raised. The exceptions of opening the output, of detecting the encoding, of starting
  the parser, and of flushing and closing the output after records were written leave
  \<open>process\<close>.
\<close>

theorem C1_batch_failures_are_isolated:
  "(apply_processing_funcs (processing_funcs self) chunk = Inl (Exception m) \<longrightarrow>
      loop_body self w chunk s =
        (s\<lparr>chunk_number := chunk_number s + 1,
           logger := logger s @ [Error_Erro_no_chunk (chunk_number s + 1) (Exception m)]\<rparr>,
         None))
   \<and> (apply_processing_funcs (processing_funcs self) chunk = Inr chunk'
        \<and> write_fault w (chunk_number s + 1) = Some (k, Exception m) \<longrightarrow>
      loop_body self w chunk s =
        (s\<lparr>chunk_number := chunk_number s + 1,
           f_out := f_out s @ take k (to_csv chunk' (\<not> header_written s)),
           logger := logger s @ [Error_Erro_no_chunk (chunk_number s + 1) (Exception m)]\<rparr>,
         None))
   \<and> (out_open w = None \<and> detect w = Inr enc \<and> reader w = Inr (chunks, stop)
        \<and> (\<forall>c\<in>set chunks. \<forall>m'.
              apply_processing_funcs (processing_funcs self) c \<noteq> Inl (BaseException m'))
        \<and> (\<forall>n k' m'. write_fault w n \<noteq> Some (k', BaseException m'))
        \<and> out_close w = None \<longrightarrow>
      snd (process self w) = stop
      \<and> chunk_number (fst (process self w)) = int (length chunks))
   \<and> (out_open w = None \<and> f_out (fst (process self w)) \<noteq> [] \<and> out_close w = Some e \<longrightarrow>
        snd (process self w) = Some e)
   \<and> (out_open w = Some e \<longrightarrow> snd (process self w) = Some e)
   \<and> (out_open w = None \<and> detect w = Inl e \<longrightarrow> snd (process self w) = Some e)
   \<and> (out_open w = None \<and> detect w = Inr enc \<and> reader w = Inl e \<longrightarrow>
        snd (process self w) = Some e)"
proof (intro conjI impI)
  assume "apply_processing_funcs (processing_funcs self) chunk = Inl (Exception m)"
  then show "loop_body self w chunk s =
        (s\<lparr>chunk_number := chunk_number s + 1,
           logger := logger s @ [Error_Erro_no_chunk (chunk_number s + 1) (Exception m)]\<rparr>,
         None)"
    by (simp add: loop_body_def Let_def)
next
  assume "apply_processing_funcs (processing_funcs self) chunk = Inr chunk'
        \<and> write_fault w (chunk_number s + 1) = Some (k, Exception m)"
  then show "loop_body self w chunk s =
        (s\<lparr>chunk_number := chunk_number s + 1,
           f_out := f_out s @ take k (to_csv chunk' (\<not> header_written s)),
           logger := logger s @ [Error_Erro_no_chunk (chunk_number s + 1) (Exception m)]\<rparr>,
         None)"
    by (simp add: loop_body_def Let_def)
next
  assume a: "out_open w = None \<and> detect w = Inr enc \<and> reader w = Inr (chunks, stop)
        \<and> (\<forall>c\<in>set chunks. \<forall>m'.
              apply_processing_funcs (processing_funcs self) c \<noteq> Inl (BaseException m'))
        \<and> (\<forall>n k' m'. write_fault w n \<noteq> Some (k', BaseException m'))
        \<and> out_close w = None"
  let ?g = "read_chunks w"
  let ?s1 = "\<lparr>f_out = [], logger = [Info_Iniciando] @ preamble ?g, chunk_number = 0,
              total_rows = 0, total_nulls = 0, header_written = False\<rparr>"
  from a have y: "map snd (items ?g) = chunks" "ending ?g = stop"
    using read_chunks_yields [of w enc chunks stop] by simp_all
  with a have "\<forall>c\<in>set (map snd (items ?g)). \<forall>m'.
              apply_processing_funcs (processing_funcs self) c \<noteq> Inl (BaseException m')"
    by simp
  from for_chunks_caught [OF this, of w ?s1] a
  have loop: "snd (for_chunks self w (items ?g) ?s1) = None"
    "chunk_number (fst (for_chunks self w (items ?g) ?s1)) = int (length (items ?g))"
    by simp_all
  have "length (items ?g) = length chunks"
    using y(1) by (metis length_map)
  with loop y(2) a
  show "snd (process self w) = stop"
    "chunk_number (fst (process self w)) = int (length chunks)"
    by (auto simp: process_def close_stream_def Let_def split: prod.splits option.splits)
next
  assume "out_open w = None \<and> f_out (fst (process self w)) \<noteq> [] \<and> out_close w = Some e"
  then show "snd (process self w) = Some e"
    by (auto simp: process_def close_stream_def Let_def split: prod.splits option.splits if_splits)
next
  assume "out_open w = Some e"
  then show "snd (process self w) = Some e"
    by (simp add: process_def)
next
  assume "out_open w = None \<and> detect w = Inl e"
  then show "snd (process self w) = Some e"
    by (simp add: process_def close_stream_def Let_def read_chunks_def)
next
  assume "out_open w = None \<and> detect w = Inr enc \<and> reader w = Inl e"
  then show "snd (process self w) = Some e"
    by (simp add: process_def close_stream_def Let_def read_chunks_def)
qed

text \<open>
  C1 as stated fails. A write that raises after the header and one row of its batch
  leaves both in the file; a \<open>KeyboardInterrupt\<close> raised in a transform is not
  caught by \<open>except Exception\<close> and leaves \<open>process\<close>; and so does an \<open>OSError\<close>
  raised when the output is flushed and closed, which is not a setup-time error.
\<close>

theorem C1_counterexample:
  "apply_processing_funcs (processing_funcs (with_funcs [])) chunk_a = Inr chunk_a
   \<and> write_fault (world_of [chunk_a] (fault_at 1 2)) 1 =
       Some (2, Exception ''No space left on device'')
   \<and> f_out (fst (process (with_funcs []) (world_of [chunk_a] (fault_at 1 2)))) =
       [Header [''a'', ''b''], Data [Some ''1'', None]]
   \<and> snd (process (with_funcs []) (world_of [chunk_a] (fault_at 1 2))) = None
   \<and> interrupted chunk_a = Inl (BaseException ''KeyboardInterrupt'')
   \<and> snd (process (with_funcs [interrupted]) (world_of [chunk_a, chunk_b] no_fault)) =
       Some (BaseException ''KeyboardInterrupt'')
   \<and> snd (process (with_funcs [])
        ((world_of [chunk_b] no_fault)\<lparr>out_close := Some (Exception ''OSError'')\<rparr>)) =
       Some (Exception ''OSError'')"
  by (simp add: example_defs run_defs)

text \<open>
  The theorem of C1 at a batch whose transform raises, at a batch whose write raises
  after two records, at a run of three batches of which the first two fail, at a run
  whose output fails to close, and at three worlds in which the setup fails.
\<close>

theorem C1_witness:
  "loop_body (with_funcs [reject_nulls]) (world_of [chunk_a] no_fault) chunk_a state0 =
     (state0\<lparr>chunk_number := 1,
        logger := [Error_Erro_no_chunk 1 (Exception ''null cell'')]\<rparr>, None)
   \<and> loop_body (with_funcs []) (world_of [chunk_a] (fault_at 1 2)) chunk_a state0 =
     (state0\<lparr>chunk_number := 1,
        f_out := [Header [''a'', ''b''], Data [Some ''1'', None]],
        logger := [Error_Erro_no_chunk 1 (Exception ''No space left on device'')]\<rparr>, None)
   \<and> snd (process (with_funcs [reject_nulls])
            (world_of [chunk_a, chunk_b, chunk_b] (fault_at 2 1))) = None
   \<and> chunk_number (fst (process (with_funcs [reject_nulls])
            (world_of [chunk_a, chunk_b, chunk_b] (fault_at 2 1)))) = 3
   \<and> f_out (fst (process (with_funcs [])
        ((world_of [chunk_b] no_fault)\<lparr>out_close := Some (Exception ''OSError'')\<rparr>))) =
       [Header [''a'', ''b''], Data [Some ''4'', Some ''5'']]
   \<and> snd (process (with_funcs [])
        ((world_of [chunk_b] no_fault)\<lparr>out_close := Some (Exception ''OSError'')\<rparr>)) =
       Some (Exception ''OSError'')
   \<and> snd (process (with_funcs [])
        ((world_of [chunk_a] no_fault)\<lparr>out_open := Some (Exception ''PermissionError'')\<rparr>)) =
       Some (Exception ''PermissionError'')
   \<and> snd (process (with_funcs [])
        ((world_of [chunk_a] no_fault)\<lparr>detect := Inl (Exception ''FileNotFoundError'')\<rparr>)) =
       Some (Exception ''FileNotFoundError'')
   \<and> snd (process (with_funcs [])
        ((world_of [chunk_a] no_fault)\<lparr>reader := Inl (Exception ''EmptyDataError'')\<rparr>)) =
       Some (Exception ''EmptyDataError'')"
proof -
  have h1: "apply_processing_funcs (processing_funcs (with_funcs [reject_nulls])) chunk_a =
      Inl (Exception ''null cell'')"
    by (simp add: example_defs isnull_sum_sum_def)
  have h2: "apply_processing_funcs (processing_funcs (with_funcs [])) chunk_a = Inr chunk_a
      \<and> write_fault (world_of [chunk_a] (fault_at 1 2)) (chunk_number state0 + 1) =
          Some (2, Exception ''No space left on device'')"
    by (simp add: example_defs)
  have h3: "out_open (world_of [chunk_a, chunk_b, chunk_b] (fault_at 2 1)) = None
      \<and> detect (world_of [chunk_a, chunk_b, chunk_b] (fault_at 2 1)) = Inr (Some ''utf-8'')
      \<and> reader (world_of [chunk_a, chunk_b, chunk_b] (fault_at 2 1)) =
          Inr ([chunk_a, chunk_b, chunk_b], None)
      \<and> (\<forall>c\<in>set [chunk_a, chunk_b, chunk_b]. \<forall>m'.
            apply_processing_funcs (processing_funcs (with_funcs [reject_nulls])) c
              \<noteq> Inl (BaseException m'))
      \<and> (\<forall>n k' m'. write_fault (world_of [chunk_a, chunk_b, chunk_b] (fault_at 2 1)) n
              \<noteq> Some (k', BaseException m'))
      \<and> out_close (world_of [chunk_a, chunk_b, chunk_b] (fault_at 2 1)) = None"
    by (simp add: example_defs isnull_sum_sum_def)
  note t1 = C1_batch_failures_are_isolated
    [where self = "with_funcs [reject_nulls]" and chunk = chunk_a and m = "''null cell''"
       and w = "world_of [chunk_a] no_fault" and s = state0]
  note t2 = C1_batch_failures_are_isolated
    [where self = "with_funcs []" and chunk = chunk_a and chunk' = chunk_a
       and m = "''No space left on device''" and k = 2
       and w = "world_of [chunk_a] (fault_at 1 2)" and s = state0]
  note t3 = C1_batch_failures_are_isolated
    [where self = "with_funcs [reject_nulls]"
       and w = "world_of [chunk_a, chunk_b, chunk_b] (fault_at 2 1)"
       and enc = "Some ''utf-8''" and chunks = "[chunk_a, chunk_b, chunk_b]" and stop = None]
  from t1 h1 have c1: "loop_body (with_funcs [reject_nulls]) (world_of [chunk_a] no_fault) chunk_a state0 =
     (state0\<lparr>chunk_number := 1,
        logger := [Error_Erro_no_chunk 1 (Exception ''null cell'')]\<rparr>, None)"
    by (simp add: state0_def)
  from t2 h2 have c2: "loop_body (with_funcs []) (world_of [chunk_a] (fault_at 1 2)) chunk_a state0 =
     (state0\<lparr>chunk_number := 1,
        f_out := [Header [''a'', ''b''], Data [Some ''1'', None]],
        logger := [Error_Erro_no_chunk 1 (Exception ''No space left on device'')]\<rparr>, None)"
    by (simp add: state0_def to_csv_def chunk_a_def)
  from t3 h3 have c3: "snd (process (with_funcs [reject_nulls])
            (world_of [chunk_a, chunk_b, chunk_b] (fault_at 2 1))) = None
   \<and> chunk_number (fst (process (with_funcs [reject_nulls])
            (world_of [chunk_a, chunk_b, chunk_b] (fault_at 2 1)))) = 3"
    by simp
  note t4 = C1_batch_failures_are_isolated
    [where self = "with_funcs []" and e = "Exception ''PermissionError''"
       and w = "(world_of [chunk_a] no_fault)\<lparr>out_open := Some (Exception ''PermissionError'')\<rparr>"]
  note t5 = C1_batch_failures_are_isolated
    [where self = "with_funcs []" and e = "Exception ''FileNotFoundError''"
       and w = "(world_of [chunk_a] no_fault)\<lparr>detect := Inl (Exception ''FileNotFoundError'')\<rparr>"]
  note t6 = C1_batch_failures_are_isolated
    [where self = "with_funcs []" and e = "Exception ''EmptyDataError''"
       and enc = "Some ''utf-8''"
       and w = "(world_of [chunk_a] no_fault)\<lparr>reader := Inl (Exception ''EmptyDataError'')\<rparr>"]
  from t4 have c4: "snd (process (with_funcs [])
        ((world_of [chunk_a] no_fault)\<lparr>out_open := Some (Exception ''PermissionError'')\<rparr>)) =
       Some (Exception ''PermissionError'')"
    by (simp add: world_of_def)
  from t5 have c5: "snd (process (with_funcs [])
        ((world_of [chunk_a] no_fault)\<lparr>detect := Inl (Exception ''FileNotFoundError'')\<rparr>)) =
       Some (Exception ''FileNotFoundError'')"
    by (simp add: world_of_def)
  from t6 have c6: "snd (process (with_funcs [])
        ((world_of [chunk_a] no_fault)\<lparr>reader := Inl (Exception ''EmptyDataError'')\<rparr>)) =
       Some (Exception ''EmptyDataError'')"
    by (simp add: world_of_def)
  let ?wc = "(world_of [chunk_b] no_fault)\<lparr>out_close := Some (Exception ''OSError'')\<rparr>"
  have fc: "f_out (fst (process (with_funcs []) ?wc)) =
       [Header [''a'', ''b''], Data [Some ''4'', Some ''5'']]"
    by (simp add: example_defs run_defs)
  have hc: "out_open ?wc = None \<and> f_out (fst (process (with_funcs []) ?wc)) \<noteq> []
      \<and> out_close ?wc = Some (Exception ''OSError'')"
    unfolding fc by (simp add: world_of_def)
  note t7 = C1_batch_failures_are_isolated
    [where self = "with_funcs []" and e = "Exception ''OSError''" and w = ?wc]
  from t7 hc have c7: "snd (process (with_funcs []) ?wc) = Some (Exception ''OSError'')"
    by blast
  from c1 c2 c3 c4 c5 c6 c7 fc show ?thesis by simp
qed

section \<open>The totals\<close>

lemma attempted_all:
  assumes "out_open w = None"
    and "\<forall>b\<in>set (batches w). \<forall>m.
           apply_processing_funcs (processing_funcs self) (snd b) \<noteq> Inl (BaseException m)"
    and "\<forall>n k m. write_fault w n \<noteq> Some (k, BaseException m)"
  shows "attempted self w = batches w"
proof -
  let ?g = "read_chunks w"
  let ?s1 = "\<lparr>f_out = [], logger = [Info_Iniciando] @ preamble ?g, chunk_number = 0,
              total_rows = 0, total_nulls = 0, header_written = False\<rparr>"
  have "map snd (batches w) = map snd (items ?g)"
    by (simp add: batches_def map_snd_enumerate_from)
  with assms(2) have "\<forall>c\<in>set (map snd (items ?g)). \<forall>m.
             apply_processing_funcs (processing_funcs self) c \<noteq> Inl (BaseException m)"
    by (metis (no_types, lifting) image_iff list.set_map)
  from for_chunks_caught [OF this assms(3), of ?s1]
  have loop: "chunk_number (fst (for_chunks self w (items ?g) ?s1)) = int (length (items ?g))"
    by simp
  have "chunk_number (fst (process self w)) = chunk_number (fst (for_chunks self w (items ?g) ?s1))"
    using assms(1) by (simp add: process_def Let_def split: prod.splits option.splits)
  with loop have "chunk_number (fst (process self w)) = int (length (batches w))"
    by (simp add: batches_def length_enumerate_from)
  then show ?thesis by (simp add: attempted_def)
qed

text \<open>
  C3. In a run whose output opens and in which the pipeline and the write raise nothing
  but instances of \<open>Exception\<close>, \<open>total_rows\<close> is at the end the sum of the row counts,
  and \<open>total_nulls\<close> the sum of the null-cell counts, of exactly those batches, among all
  the batches the Reader yields, that were processed successfully. A run that ends
  without an exception has attempted every batch the Reader yields. In every run the
  totals are these sums over the batches the loop got to. One pass of the loop body adds
  the counts of its batch when the batch is processed and adds nothing when it fails, so
  neither counter decreases in a pass, nor from one prefix of the loop to the next.
\<close>

theorem C3_totals_are_sums_of_processed_batches:
  "(out_open w = None
      \<and> (\<forall>b\<in>set (batches w). \<forall>m.
            apply_processing_funcs (processing_funcs self) (snd b) \<noteq> Inl (BaseException m))
      \<and> (\<forall>n k m. write_fault w n \<noteq> Some (k, BaseException m)) \<longrightarrow>
      total_rows (fst (process self w)) =
        sum_list (map len (List.map_filter (processed self w) (batches w)))
      \<and> total_nulls (fst (process self w)) =
        sum_list (map isnull_sum_sum (List.map_filter (processed self w) (batches w))))
   \<and> (snd (process self w) = None \<longrightarrow> attempted self w = batches w)
   \<and> total_rows (fst (process self w)) =
     sum_list (map len (List.map_filter (processed self w) (attempted self w)))
   \<and> total_nulls (fst (process self w)) =
     sum_list (map isnull_sum_sum (List.map_filter (processed self w) (attempted self w)))
   \<and> total_rows (fst (loop_body self w chunk s)) =
       total_rows s + (case processed self w (chunk_number s + 1, chunk) of
                         None \<Rightarrow> 0 | Some c \<Rightarrow> len c)
   \<and> total_nulls (fst (loop_body self w chunk s)) =
       total_nulls s + (case processed self w (chunk_number s + 1, chunk) of
                          None \<Rightarrow> 0 | Some c \<Rightarrow> isnull_sum_sum c)
   \<and> total_rows s \<le> total_rows (fst (loop_body self w chunk s))
   \<and> total_nulls s \<le> total_nulls (fst (loop_body self w chunk s))
   \<and> total_rows (fst (for_chunks self w (take n its) s))
       \<le> total_rows (fst (for_chunks self w (take (Suc n) its) s))
   \<and> total_nulls (fst (for_chunks self w (take n its) s))
       \<le> total_nulls (fst (for_chunks self w (take (Suc n) its) s))"
proof -
  obtain s' r where body: "loop_body self w chunk s = (s', r)"
    by (cases "loop_body self w chunk s")
  note f = loop_body_fields [OF body]
  have sums: "total_rows (fst (process self w)) =
       sum_list (map len (List.map_filter (processed self w) (attempted self w)))
     \<and> total_nulls (fst (process self w)) =
       sum_list (map isnull_sum_sum (List.map_filter (processed self w) (attempted self w)))"
  proof (cases "out_open w")
    case None
    then show ?thesis by (simp add: process_run)
  next
    case (Some e)
    then show ?thesis by (simp add: process_open_fails attempted_def)
  qed
  have every: "total_rows (fst (process self w)) =
        sum_list (map len (List.map_filter (processed self w) (batches w)))
      \<and> total_nulls (fst (process self w)) =
        sum_list (map isnull_sum_sum (List.map_filter (processed self w) (batches w)))"
    if "out_open w = None
      \<and> (\<forall>b\<in>set (batches w). \<forall>m.
            apply_processing_funcs (processing_funcs self) (snd b) \<noteq> Inl (BaseException m))
      \<and> (\<forall>n k m. write_fault w n \<noteq> Some (k, BaseException m))"
  proof -
    from that have "attempted self w = batches w"
      by (intro attempted_all) simp_all
    with sums show ?thesis by simp
  qed
  have normal: "attempted self w = batches w" if "snd (process self w) = None"
  proof (cases "out_open w")
    case None
    from process_run(5) [OF None that] show ?thesis .
  next
    case (Some e)
    with that show ?thesis by (simp add: process_open_fails)
  qed
  have step: "total_rows s \<le> total_rows (fst (loop_body self w chunk s))
      \<and> total_nulls s \<le> total_nulls (fst (loop_body self w chunk s))"
    using f(2,3) body len_nonneg isnull_sum_sum_nonneg
    by (auto split: option.splits)
  have fields: "total_rows (fst (loop_body self w chunk s)) =
       total_rows s + (case processed self w (chunk_number s + 1, chunk) of
                         None \<Rightarrow> 0 | Some c \<Rightarrow> len c)
   \<and> total_nulls (fst (loop_body self w chunk s)) =
       total_nulls s + (case processed self w (chunk_number s + 1, chunk) of
                          None \<Rightarrow> 0 | Some c \<Rightarrow> isnull_sum_sum c)"
    using f(2,3) body by simp
  show ?thesis
    using sums every normal step fields for_chunks_prefix_mono [of self w n its s]
    by blast
qed

text \<open>
  The theorem of C3 at a run of three batches whose second fails in the write: the two
  rows and the one null of the first and of the third batch are counted, the row of the
  second is not.
\<close>

theorem C3_witness:
  "batches (world_of [chunk_a, chunk_b, chunk_a] (fault_at 2 0)) =
     [(1, chunk_a), (2, chunk_b), (3, chunk_a)]
   \<and> List.map_filter (processed (with_funcs []) (world_of [chunk_a, chunk_b, chunk_a] (fault_at 2 0)))
        (batches (world_of [chunk_a, chunk_b, chunk_a] (fault_at 2 0))) = [chunk_a, chunk_a]
   \<and> len chunk_a = 2 \<and> isnull_sum_sum chunk_a = 1 \<and> len chunk_b = 1
   \<and> total_rows (fst (process (with_funcs [])
        (world_of [chunk_a, chunk_b, chunk_a] (fault_at 2 0)))) = 4
   \<and> total_nulls (fst (process (with_funcs [])
        (world_of [chunk_a, chunk_b, chunk_a] (fault_at 2 0)))) = 2
   \<and> snd (process (with_funcs []) (world_of [chunk_a, chunk_b, chunk_a] (fault_at 2 0))) = None
   \<and> attempted (with_funcs []) (world_of [chunk_a, chunk_b, chunk_a] (fault_at 2 0)) =
       [(1, chunk_a), (2, chunk_b), (3, chunk_a)]"
proof -
  let ?self = "with_funcs []"
  let ?w = "world_of [chunk_a, chunk_b, chunk_a] (fault_at 2 0)"
  have b: "batches ?w = [(1, chunk_a), (2, chunk_b), (3, chunk_a)]"
    by (simp add: batches_def read_chunks_def world_of_def)
  have h: "out_open ?w = None
      \<and> (\<forall>b\<in>set (batches ?w). \<forall>m.
            apply_processing_funcs (processing_funcs ?self) (snd b) \<noteq> Inl (BaseException m))
      \<and> (\<forall>n k m. write_fault ?w n \<noteq> Some (k, BaseException m))"
    unfolding b by (simp add: world_of_def with_funcs_def fault_at_def)
  have p: "List.map_filter (processed ?self ?w) (batches ?w) = [chunk_a, chunk_a]"
    unfolding b by (simp add: processed_def world_of_def with_funcs_def fault_at_def)
  have l: "len chunk_a = 2 \<and> isnull_sum_sum chunk_a = 1 \<and> len chunk_b = 1"
    by (simp add: len_def isnull_sum_sum_def chunk_a_def chunk_b_def)
  have n: "snd (process ?self ?w) = None"
    by (simp add: example_defs run_defs)
  note t = C3_totals_are_sums_of_processed_batches [where self = ?self and w = ?w]
  from t h have "total_rows (fst (process ?self ?w)) =
        sum_list (map len (List.map_filter (processed ?self ?w) (batches ?w)))
      \<and> total_nulls (fst (process ?self ?w)) =
        sum_list (map isnull_sum_sum (List.map_filter (processed ?self ?w) (batches ?w)))"
    by blast
  with p l have tot: "total_rows (fst (process ?self ?w)) = 4
      \<and> total_nulls (fst (process ?self ?w)) = 2"
    by simp
  from t n have "attempted ?self ?w = batches ?w" by blast
  with b have a: "attempted ?self ?w = [(1, chunk_a), (2, chunk_b), (3, chunk_a)]" by simp
  from b p l tot n a show ?thesis by simp
qed

section \<open>The header\<close>

lemma processed_SomeD:
  "processed self w b = Some c \<Longrightarrow>
     apply_processing_funcs (processing_funcs self) (snd b) = Inr c \<and> write_fault w (fst b) = None"
  by (auto simp: processed_def split: sum.splits option.splits)

lemma written_processed:
  "processed self w b = Some c \<Longrightarrow> written self w h b = to_csv c h"
  by (auto simp: processed_def written_def split: sum.splits option.splits)

lemma written_transform_failed:
  "apply_processing_funcs (processing_funcs self) (snd b) = Inl e \<Longrightarrow> written self w h b = []"
  by (simp add: written_def)

lemma written_nothing_partial:
  assumes "\<forall>n k e. write_fault w n = Some (k, e) \<longrightarrow> k = 0"
    and "processed self w b = None"
  shows "written self w h b = []"
  using assms
  by (auto simp: processed_def written_def split: sum.splits option.splits)

lemma written_without_header: "filter is_header (written self w False b) = []"
proof -
  have "filter is_header (take k (map Data rs)) = []" for k rs
    by (induction rs arbitrary: k) (auto simp: take_Cons split: nat.splits)
  then show ?thesis
    by (auto simp: written_def to_csv_def split: sum.splits option.splits)
qed

lemma emitted_after_header: "filter is_header (emitted self w True bs) = []"
  by (induction bs) (simp_all add: written_without_header)

lemma map_filter_Nil_iff: "List.map_filter f xs = [] \<longleftrightarrow> (\<forall>x\<in>set xs. f x = None)"
  by (induction xs) (auto split: option.splits)

lemma emitted_failed_prefix:
  "List.map_filter (processed self w) fails = [] \<Longrightarrow>
     emitted self w False (fails @ bs) =
       concat (map (written self w True) fails) @ emitted self w False bs"
  by (induction fails) (auto split: option.splits)

lemma emitted_first_header:
  assumes "\<forall>n k e. write_fault w n = Some (k, e) \<longrightarrow> k = 0"
    and "List.map_filter (processed self w) bs \<noteq> []"
  shows "\<exists>rest. emitted self w False bs =
           Header (columns (hd (List.map_filter (processed self w) bs))) # rest
         \<and> filter is_header rest = []"
  using assms(2)
proof (induction bs)
  case Nil
  then show ?case by simp
next
  case (Cons b bs)
  show ?case
  proof (cases "processed self w b")
    case None
    with Cons written_nothing_partial [OF assms(1) None] show ?thesis by simp
  next
    case (Some c)
    then show ?thesis
      by (simp add: written_processed to_csv_def emitted_after_header)
  qed
qed

lemma emitted_nothing:
  assumes "\<forall>n k e. write_fault w n = Some (k, e) \<longrightarrow> k = 0"
    and "List.map_filter (processed self w) bs = []"
  shows "emitted self w False bs = []"
  using assms(2)
  by (induction bs) (auto simp: written_nothing_partial [OF assms(1)] split: option.splits)

lemma emitted_write_attempted:
  "emitted self w hw bs \<noteq> [] \<Longrightarrow>
     \<exists>b\<in>set bs. \<exists>c. apply_processing_funcs (processing_funcs self) (snd b) = Inr c"
proof (induction bs arbitrary: hw)
  case Nil
  then show ?case by simp
next
  case (Cons b bs)
  show ?case
  proof (cases "apply_processing_funcs (processing_funcs self) (snd b)")
    case (Inl e)
    with Cons.prems have "emitted self w (hw \<or> processed self w b \<noteq> None) bs \<noteq> []"
      by (simp add: written_transform_failed)
    from Cons.IH [OF this] show ?thesis by auto
  next
    case (Inr c)
    then show ?thesis by auto
  qed
qed

text \<open>
  C2, as amended. In a run in which no failed write has put records in the file, the
  output file has exactly one header record, its first record, which is the header of the
  first batch processed successfully, provided some batch is processed successfully; and
  the file is empty when none is. Once the header flag is true it stays true over the
  loop body and over the rest of the loop, which adds no header record to the file.
\<close>

theorem C2_one_header_when_a_batch_is_written:
  "(out_open w = None \<and> (\<forall>n k e. write_fault w n = Some (k, e) \<longrightarrow> k = 0)
      \<and> List.map_filter (processed self w) (attempted self w) \<noteq> [] \<longrightarrow>
      (\<exists>rest. f_out (fst (process self w)) =
          Header (columns (hd (List.map_filter (processed self w) (attempted self w)))) # rest
        \<and> filter is_header rest = []))
   \<and> (out_open w = None \<and> (\<forall>n k e. write_fault w n = Some (k, e) \<longrightarrow> k = 0)
      \<and> List.map_filter (processed self w) (attempted self w) = [] \<longrightarrow>
      f_out (fst (process self w)) = [])
   \<and> (header_written s \<longrightarrow>
        header_written (fst (loop_body self w chunk s))
      \<and> header_written (fst (for_chunks self w its s))
      \<and> filter is_header (f_out (fst (for_chunks self w its s))) = filter is_header (f_out s))"
proof (intro conjI impI)
  assume a: "out_open w = None \<and> (\<forall>n k e. write_fault w n = Some (k, e) \<longrightarrow> k = 0)
      \<and> List.map_filter (processed self w) (attempted self w) \<noteq> []"
  then have "f_out (fst (process self w)) = emitted self w False (attempted self w)"
    by (simp add: process_run)
  with a emitted_first_header [of w self "attempted self w"]
  show "\<exists>rest. f_out (fst (process self w)) =
          Header (columns (hd (List.map_filter (processed self w) (attempted self w)))) # rest
        \<and> filter is_header rest = []"
    by simp
next
  assume a: "out_open w = None \<and> (\<forall>n k e. write_fault w n = Some (k, e) \<longrightarrow> k = 0)
      \<and> List.map_filter (processed self w) (attempted self w) = []"
  then have "f_out (fst (process self w)) = emitted self w False (attempted self w)"
    by (simp add: process_run)
  with a emitted_nothing [of w self "attempted self w"]
  show "f_out (fst (process self w)) = []"
    by simp
next
  assume hw: "header_written s"
  obtain s1 r1 where body: "loop_body self w chunk s = (s1, r1)"
    by (cases "loop_body self w chunk s")
  from loop_body_fields(4) [OF body] hw body
  show "header_written (fst (loop_body self w chunk s))" by simp
  obtain s' r where run: "for_chunks self w its s = (s', r)"
    by (cases "for_chunks self w its s")
  from for_chunks_run [OF run] hw obtain bs where
    "header_written s'" "f_out s' = f_out s @ emitted self w True bs"
    by auto
  with run show "header_written (fst (for_chunks self w its s))"
    "filter is_header (f_out (fst (for_chunks self w its s))) = filter is_header (f_out s)"
    by (simp_all add: emitted_after_header)
qed

text \<open>
  C2 as stated fails. When the transform raises on every batch the file has no header
  record; and when a write raises after its header record has reached the file, the next
  successful batch writes the header again.
\<close>

theorem C2_counterexample:
  "filter is_header (f_out (fst (process (with_funcs [always_raises])
       (world_of [chunk_a, chunk_b] no_fault)))) = []
   \<and> snd (process (with_funcs [always_raises]) (world_of [chunk_a, chunk_b] no_fault)) = None
   \<and> f_out (fst (process (with_funcs [reject_nulls])
       (world_of [chunk_a, chunk_b, chunk_b] (fault_at 2 1)))) =
       [Header [''a'', ''b''], Header [''a'', ''b''], Data [Some ''4'', Some ''5'']]"
  by (simp add: example_defs run_defs)

text \<open>
  The theorem of C2 at a run whose first batch fails in the pipeline, whose second fails
  in the write before any record, and whose third is written; at a run in which every
  batch fails; and at a pass of the loop body entered with the flag set.
\<close>

theorem C2_witness:
  "List.map_filter (processed (with_funcs [reject_nulls])
       (world_of [chunk_a, chunk_b, chunk_b] (fault_at 2 0)))
     (attempted (with_funcs [reject_nulls])
       (world_of [chunk_a, chunk_b, chunk_b] (fault_at 2 0))) = [chunk_b]
   \<and> f_out (fst (process (with_funcs [reject_nulls])
       (world_of [chunk_a, chunk_b, chunk_b] (fault_at 2 0)))) =
       [Header [''a'', ''b''], Data [Some ''4'', Some ''5'']]
   \<and> List.map_filter (processed (with_funcs [always_raises])
       (world_of [chunk_a, chunk_b] no_fault))
     (attempted (with_funcs [always_raises]) (world_of [chunk_a, chunk_b] no_fault)) = []
   \<and> f_out (fst (process (with_funcs [always_raises])
       (world_of [chunk_a, chunk_b] no_fault))) = []
   \<and> header_written (fst (loop_body (with_funcs []) (world_of [chunk_b] no_fault) chunk_b
        (state0\<lparr>f_out := [Header [''a'', ''b'']], header_written := True\<rparr>)))
   \<and> f_out (fst (loop_body (with_funcs []) (world_of [chunk_b] no_fault) chunk_b
        (state0\<lparr>f_out := [Header [''a'', ''b'']], header_written := True\<rparr>))) =
       [Header [''a'', ''b''], Data [Some ''4'', Some ''5'']]"
proof -
  let ?self = "with_funcs [reject_nulls]"
  let ?w = "world_of [chunk_a, chunk_b, chunk_b] (fault_at 2 0)"
  let ?self2 = "with_funcs [always_raises]"
  let ?w2 = "world_of [chunk_a, chunk_b] no_fault"
  let ?s = "state0\<lparr>f_out := [Header [''a'', ''b'']], header_written := True\<rparr>"
  have h: "out_open ?w = None \<and> (\<forall>n k e. write_fault ?w n = Some (k, e) \<longrightarrow> k = 0)"
    by (simp add: example_defs)
  have h2: "out_open ?w2 = None \<and> (\<forall>n k e. write_fault ?w2 n = Some (k, e) \<longrightarrow> k = 0)"
    by (simp add: example_defs)
  have p: "List.map_filter (processed ?self ?w) (attempted ?self ?w) = [chunk_b]"
    by (simp add: example_defs run_defs notion_defs)
  have p2: "List.map_filter (processed ?self2 ?w2) (attempted ?self2 ?w2) = []"
    by (simp add: example_defs run_defs notion_defs)
  have f: "f_out (fst (process ?self ?w)) = [Header [''a'', ''b''], Data [Some ''4'', Some ''5'']]"
    by (simp add: example_defs run_defs)
  have hs: "header_written ?s" by (simp add: state0_def)
  have b: "f_out (fst (loop_body (with_funcs []) (world_of [chunk_b] no_fault) chunk_b ?s)) =
       [Header [''a'', ''b''], Data [Some ''4'', Some ''5'']]"
    by (simp add: example_defs run_defs)
  note t1 = C2_one_header_when_a_batch_is_written [where self = ?self and w = ?w]
  note t2 = C2_one_header_when_a_batch_is_written
    [where self = ?self2 and w = ?w2]
  note t3 = C2_one_header_when_a_batch_is_written
    [where self = "with_funcs []" and w = "world_of [chunk_b] no_fault" and s = ?s
       and chunk = chunk_b]
  from t2 h2 p2 have e: "f_out (fst (process ?self2 ?w2)) = []" by blast
  from t3 hs have k: "header_written (fst (loop_body (with_funcs []) (world_of [chunk_b] no_fault) chunk_b ?s))"
    by blast
  from t1 h p have "\<exists>rest. f_out (fst (process ?self ?w)) = Header (columns (hd [chunk_b])) # rest
      \<and> filter is_header rest = []"
    by simp
  with p f p2 e k b show ?thesis by simp
qed

text \<open>
  C10. The header flag is set by a pass of the loop body exactly when its batch is
  processed successfully, so at the end of the run it is set exactly when some batch
  was. After batches that all failed, the first batch processed successfully writes
  its header and then its rows. When no batch is processed successfully, the file holds
  what the failed writes put in it before raising, which is nothing for a batch that
  failed in the pipeline; and the file is not empty only if the pipeline returned for
  some batch, so that its write was attempted.
\<close>

theorem C10_header_comes_with_the_first_written_batch:
  "header_written (fst (loop_body self w chunk s)) =
     (header_written s \<or> processed self w (chunk_number s + 1, chunk) \<noteq> None)
   \<and> header_written (fst (process self w)) =
     (List.map_filter (processed self w) (attempted self w) \<noteq> [])
   \<and> (out_open w = None \<and> attempted self w = fails @ b # later
       \<and> List.map_filter (processed self w) fails = [] \<and> processed self w b = Some c \<longrightarrow>
       (\<exists>more. f_out (fst (process self w)) =
          concat (map (written self w True) fails)
          @ Header (columns c) # map Data (rows c) @ more))
   \<and> (out_open w = None \<and> List.map_filter (processed self w) (attempted self w) = [] \<longrightarrow>
       f_out (fst (process self w)) = concat (map (written self w True) (attempted self w)))
   \<and> (apply_processing_funcs (processing_funcs self) (snd b') = Inl e \<longrightarrow>
       written self w h b' = [])
   \<and> (out_open w = None \<and> f_out (fst (process self w)) \<noteq> [] \<longrightarrow>
       (\<exists>x\<in>set (attempted self w). \<exists>c'.
          apply_processing_funcs (processing_funcs self) (snd x) = Inr c'))"
proof (intro conjI impI)
  obtain s1 r1 where body: "loop_body self w chunk s = (s1, r1)"
    by (cases "loop_body self w chunk s")
  from loop_body_fields(4) [OF body] body
  show "header_written (fst (loop_body self w chunk s)) =
     (header_written s \<or> processed self w (chunk_number s + 1, chunk) \<noteq> None)"
    by simp
next
  show "header_written (fst (process self w)) =
     (List.map_filter (processed self w) (attempted self w) \<noteq> [])"
  proof (cases "out_open w")
    case None
    then show ?thesis by (simp add: process_run)
  next
    case (Some e)
    then show ?thesis by (simp add: process_open_fails attempted_def)
  qed
next
  assume a: "out_open w = None \<and> attempted self w = fails @ b # later
       \<and> List.map_filter (processed self w) fails = [] \<and> processed self w b = Some c"
  then have "f_out (fst (process self w)) = emitted self w False (fails @ b # later)"
    by (simp add: process_run)
  with a show "\<exists>more. f_out (fst (process self w)) =
          concat (map (written self w True) fails)
          @ Header (columns c) # map Data (rows c) @ more"
    by (simp add: emitted_failed_prefix written_processed to_csv_def)
next
  assume a: "out_open w = None \<and> List.map_filter (processed self w) (attempted self w) = []"
  then have "f_out (fst (process self w)) = emitted self w False (attempted self w @ [])"
    by (simp add: process_run)
  also from a have "\<dots> = concat (map (written self w True) (attempted self w)) @ emitted self w False []"
    by (intro emitted_failed_prefix) simp
  finally show "f_out (fst (process self w)) = concat (map (written self w True) (attempted self w))"
    by simp
next
  assume "apply_processing_funcs (processing_funcs self) (snd b') = Inl e"
  then show "written self w h b' = []" by (rule written_transform_failed)
next
  assume a: "out_open w = None \<and> f_out (fst (process self w)) \<noteq> []"
  then have "out_open w = None" by simp
  from process_run(4) [OF this, of self] a
  have "emitted self w False (attempted self w) \<noteq> []"
    by simp
  then show "\<exists>x\<in>set (attempted self w). \<exists>c'.
          apply_processing_funcs (processing_funcs self) (snd x) = Inr c'"
    by (rule emitted_write_attempted)
qed

text \<open>
  The theorem of C10 at a run whose third batch is the first one written, and at a run
  in which no batch is processed successfully, one write having raised after the header
  record.
\<close>

theorem C10_witness:
  "attempted (with_funcs [reject_nulls]) (world_of [chunk_a, chunk_b, chunk_b] (fault_at 2 1)) =
     [(1, chunk_a), (2, chunk_b)] @ (3, chunk_b) # []
   \<and> processed (with_funcs [reject_nulls])
        (world_of [chunk_a, chunk_b, chunk_b] (fault_at 2 1)) (3, chunk_b) = Some chunk_b
   \<and> header_written (fst (process (with_funcs [reject_nulls])
        (world_of [chunk_a, chunk_b, chunk_b] (fault_at 2 1))))
   \<and> f_out (fst (process (with_funcs [reject_nulls])
        (world_of [chunk_a, chunk_b, chunk_b] (fault_at 2 1)))) =
       [Header [''a'', ''b''], Header [''a'', ''b''], Data [Some ''4'', Some ''5'']]
   \<and> List.map_filter (processed (with_funcs [reject_nulls])
          (world_of [chunk_a, chunk_b] (fault_at 2 1)))
        (attempted (with_funcs [reject_nulls]) (world_of [chunk_a, chunk_b] (fault_at 2 1))) = []
   \<and> \<not> header_written (fst (process (with_funcs [reject_nulls])
        (world_of [chunk_a, chunk_b] (fault_at 2 1))))
   \<and> f_out (fst (process (with_funcs [reject_nulls])
        (world_of [chunk_a, chunk_b] (fault_at 2 1)))) = [Header [''a'', ''b'']]
   \<and> written (with_funcs [reject_nulls]) (world_of [chunk_a, chunk_b] (fault_at 2 1)) True
        (1, chunk_a) = []
   \<and> apply_processing_funcs (processing_funcs (with_funcs [reject_nulls])) chunk_b = Inr chunk_b"
proof -
  let ?self = "with_funcs [reject_nulls]"
  let ?w = "world_of [chunk_a, chunk_b, chunk_b] (fault_at 2 1)"
  let ?v = "world_of [chunk_a, chunk_b] (fault_at 2 1)"
  have o: "out_open ?w = None" "out_open ?v = None" by (simp_all add: world_of_def)
  have att: "attempted ?self ?w = [(1, chunk_a), (2, chunk_b)] @ (3, chunk_b) # []"
    by (simp add: example_defs run_defs notion_defs)
  have attv: "attempted ?self ?v = [(1, chunk_a), (2, chunk_b)]"
    by (simp add: example_defs run_defs notion_defs)
  have fails: "List.map_filter (processed ?self ?w) [(1, chunk_a), (2, chunk_b)] = []"
    by (simp add: example_defs notion_defs isnull_sum_sum_def)
  have b: "processed ?self ?w (3, chunk_b) = Some chunk_b"
    by (simp add: example_defs notion_defs isnull_sum_sum_def)
  have none: "List.map_filter (processed ?self ?v) (attempted ?self ?v) = []"
    unfolding attv by (simp add: example_defs notion_defs isnull_sum_sum_def)
  have tf: "apply_processing_funcs (processing_funcs ?self) (snd (1 :: int, chunk_a)) =
      Inl (Exception ''null cell'')"
    by (simp add: example_defs isnull_sum_sum_def)
  have ok: "apply_processing_funcs (processing_funcs ?self) chunk_b = Inr chunk_b"
    by (simp add: example_defs isnull_sum_sum_def)
  have w1: "written ?self ?w True (1, chunk_a) = []"
    "written ?self ?w True (2, chunk_b) = [Header [''a'', ''b'']]"
    "written ?self ?v True (1, chunk_a) = []"
    "written ?self ?v True (2, chunk_b) = [Header [''a'', ''b'']]"
    by (simp_all add: example_defs notion_defs isnull_sum_sum_def to_csv_def)
  have fw: "f_out (fst (process ?self ?w)) =
       [Header [''a'', ''b''], Header [''a'', ''b''], Data [Some ''4'', Some ''5'']]"
    by (simp add: example_defs run_defs)
  note t1 = C10_header_comes_with_the_first_written_batch
    [where self = ?self and w = ?w and fails = "[(1, chunk_a), (2, chunk_b)]"
       and b = "(3, chunk_b)" and later = "[]" and c = chunk_b]
  note t2 = C10_header_comes_with_the_first_written_batch
    [where self = ?self and w = ?v and b' = "(1, chunk_a)" and e = "Exception ''null cell''"
       and h = True]
  from t1 have hw: "header_written (fst (process ?self ?w)) =
      (List.map_filter (processed ?self ?w) (attempted ?self ?w) \<noteq> [])"
    by blast
  have mf: "List.map_filter (processed ?self ?w) (attempted ?self ?w) = [chunk_b]"
    by (simp add: example_defs run_defs notion_defs)
  from hw mf have c1: "header_written (fst (process ?self ?w))"
    by simp
  from t1 o(1) att fails b
  have "\<exists>more. f_out (fst (process ?self ?w)) =
          concat (map (written ?self ?w True) [(1, chunk_a), (2, chunk_b)])
          @ Header (columns chunk_b) # map Data (rows chunk_b) @ more"
    by blast
  from t2 none have c2: "\<not> header_written (fst (process ?self ?v))"
    by blast
  from t2 o(2) none
  have "f_out (fst (process ?self ?v)) = concat (map (written ?self ?v True) (attempted ?self ?v))"
    by blast
  then have c3: "f_out (fst (process ?self ?v)) = [Header [''a'', ''b'']]"
    unfolding attv using w1(3,4) by simp
  from t2 tf have c4: "written ?self ?v True (1, chunk_a) = []"
    by blast
  from att b c1 fw none c2 c3 c4 ok show ?thesis by simp
qed

section \<open>A pipeline that always raises\<close>

lemma error_numbers_append: "error_numbers (xs @ ys) = error_numbers xs @ error_numbers ys"
  by (induction xs rule: error_numbers.induct) simp_all

lemma for_chunks_all_raise:
  assumes "\<forall>it\<in>set its. error_numbers [fst it] = []
             \<and> (\<exists>m. apply_processing_funcs (processing_funcs self) (snd it) = Inl (Exception m))"
  shows "for_chunks self w its s =
           (s\<lparr>chunk_number := chunk_number s + int (length its),
              logger := logger (fst (for_chunks self w its s))\<rparr>, None)
    \<and> error_numbers (logger (fst (for_chunks self w its s))) =
        error_numbers (logger s) @ map fst (enumerate_from (chunk_number s + 1) its)"
  using assms
proof (induction its arbitrary: s)
  case Nil
  then show ?case by simp
next
  case (Cons it its)
  obtain ev chunk where it: "it = (ev, chunk)" by (cases it)
  from Cons.prems it obtain m where
    m: "apply_processing_funcs (processing_funcs self) chunk = Inl (Exception m)"
    and ev: "error_numbers [ev] = []"
    by auto
  let ?s1 = "s\<lparr>logger := logger s @ [ev, Error_Erro_no_chunk (chunk_number s + 1) (Exception m)],
               chunk_number := chunk_number s + 1\<rparr>"
  have body: "loop_body self w chunk (s\<lparr>logger := logger s @ [ev]\<rparr>) = (?s1, None)"
    using m by (simp add: loop_body_def Let_def)
  from Cons.prems have "\<forall>it\<in>set its. error_numbers [fst it] = []
             \<and> (\<exists>m. apply_processing_funcs (processing_funcs self) (snd it) = Inl (Exception m))"
    by simp
  from Cons.IH [OF this, of ?s1] have ih:
    "for_chunks self w its ?s1 =
           (?s1\<lparr>chunk_number := chunk_number ?s1 + int (length its),
              logger := logger (fst (for_chunks self w its ?s1))\<rparr>, None)"
    "error_numbers (logger (fst (for_chunks self w its ?s1))) =
        error_numbers (logger ?s1) @ map fst (enumerate_from (chunk_number ?s1 + 1) its)"
    by simp_all
  have step: "for_chunks self w (it # its) s = for_chunks self w its ?s1"
    using it body by simp
  have en: "error_numbers (logger ?s1) = error_numbers (logger s) @ [chunk_number s + 1]"
    using ev error_numbers_append [of "logger s @ [ev]"
        "[Error_Erro_no_chunk (chunk_number s + 1) (Exception m)]"]
    by (simp add: error_numbers_append)
  show ?case
  proof (intro conjI)
    show "for_chunks self w (it # its) s =
           (s\<lparr>chunk_number := chunk_number s + int (length (it # its)),
              logger := logger (fst (for_chunks self w (it # its) s))\<rparr>, None)"
      unfolding step by (subst ih(1)) simp
    show "error_numbers (logger (fst (for_chunks self w (it # its) s))) =
        error_numbers (logger s) @ map fst (enumerate_from (chunk_number s + 1) (it # its))"
      unfolding step ih(2) en by (simp add: it)
  qed
qed

lemma fst_enumerate_from_length:
  "length xs = length ys \<Longrightarrow>
     map fst (enumerate_from i xs) = map fst (enumerate_from i ys)"
  by (induction xs ys arbitrary: i rule: list_induct2) simp_all

lemma items_numbers:
  "detect w = Inr enc \<Longrightarrow> reader w = Inr (chunks, stop) \<Longrightarrow>
     map fst (enumerate_from i (items (read_chunks w))) = map fst (enumerate_from i chunks)"
  by (rule fst_enumerate_from_length) (simp add: read_chunks_def length_enumerate_from)

text \<open>
  C4, as amended. If the pipeline raises an instance of \<open>Exception\<close> on every batch
  the Reader yields, the run completes without an exception, one error is logged per
  batch, with the number of the batch, both totals are 0, and the output file is empty:
  it has no header record and no data record.
\<close>

theorem C4_every_batch_fails:
  assumes "out_open w = None" and "detect w = Inr enc" and "reader w = Inr (chunks, None)"
    and "\<forall>c\<in>set chunks. \<exists>m.
           apply_processing_funcs (processing_funcs self) c = Inl (Exception m)"
  shows "snd (process self w) = None
    \<and> chunk_number (fst (process self w)) = int (length chunks)
    \<and> error_numbers (logger (fst (process self w))) = map fst (enumerate_from 1 chunks)
    \<and> total_rows (fst (process self w)) = 0
    \<and> total_nulls (fst (process self w)) = 0
    \<and> header_written (fst (process self w)) = False
    \<and> f_out (fst (process self w)) = []"
proof -
  let ?g = "read_chunks w"
  let ?s1 = "\<lparr>f_out = [], logger = [Info_Iniciando] @ preamble ?g, chunk_number = 0,
              total_rows = 0, total_nulls = 0, header_written = False\<rparr>"
  have y: "map snd (items ?g) = chunks" "ending ?g = None"
    using read_chunks_yields [OF assms(2,3)] by simp_all
  have pre: "preamble ?g = [Info_Encoding_detectado enc, Info_Lendo_CSV enc]"
    using assms(2,3) by (simp add: read_chunks_def)
  have evs: "\<forall>it\<in>set (items ?g). error_numbers [fst it] = []"
    using assms(2,3) by (auto simp: read_chunks_def)
  have "\<forall>it\<in>set (items ?g). snd it \<in> set chunks"
    using y(1) by (metis image_eqI set_map)
  with evs assms(4) have all: "\<forall>it\<in>set (items ?g). error_numbers [fst it] = []
             \<and> (\<exists>m. apply_processing_funcs (processing_funcs self) (snd it) = Inl (Exception m))"
    by blast
  note run = for_chunks_all_raise [OF all, of w ?s1]
  have len: "length (items ?g) = length chunks"
    using y(1) by (metis length_map)
  have nums: "map fst (enumerate_from 1 (items ?g)) = map fst (enumerate_from 1 chunks)"
    by (rule items_numbers [OF assms(2,3)])
  obtain s2 where s2: "for_chunks self w (items ?g) ?s1 = (s2, None)"
    "s2 = ?s1\<lparr>chunk_number := int (length chunks), logger := logger s2\<rparr>"
    "error_numbers (logger s2) = map fst (enumerate_from 1 chunks)"
    using run len nums pre by (cases "for_chunks self w (items ?g) ?s1") (simp add: error_numbers_append)
  have fo: "f_out s2 = []" by (subst s2(2)) simp
  have p: "process self w = (s2\<lparr>logger := logger s2 @
                          [Info_Concluido, Info_Total_chunks (chunk_number s2),
                           Info_Total_linhas (total_rows s2),
                           Info_Total_nulos (total_nulls s2), Info_Tempo_total]\<rparr>, None)"
    using assms(1) s2(1) y(2) fo by (simp add: process_def close_stream_def Let_def)
  have fields: "chunk_number s2 = int (length chunks)" "total_rows s2 = 0" "total_nulls s2 = 0"
    "header_written s2 = False" "f_out s2 = []"
    by (subst s2(2), simp)+
  show ?thesis
    using fields s2(3) by (simp add: p error_numbers_append)
qed

text \<open>
  C4 as stated fails: with a transform that raises on every batch the output file is
  empty, so it does not hold the header record; and with a transform that raises a
  \<open>KeyboardInterrupt\<close> on every batch the run does not complete.
\<close>

theorem C4_counterexample:
  "always_raises chunk_a = Inl (Exception ''boom'')
   \<and> always_raises chunk_b = Inl (Exception ''boom'')
   \<and> snd (process (with_funcs [always_raises]) (world_of [chunk_a, chunk_b] no_fault)) = None
   \<and> f_out (fst (process (with_funcs [always_raises]) (world_of [chunk_a, chunk_b] no_fault))) = []
   \<and> f_out (fst (process (with_funcs [always_raises]) (world_of [chunk_a, chunk_b] no_fault)))
       \<noteq> [Header [''a'', ''b'']]
   \<and> interrupted chunk_a = Inl (BaseException ''KeyboardInterrupt'')
   \<and> interrupted chunk_b = Inl (BaseException ''KeyboardInterrupt'')
   \<and> snd (process (with_funcs [interrupted]) (world_of [chunk_a, chunk_b] no_fault)) =
       Some (BaseException ''KeyboardInterrupt'')"
  by (simp add: example_defs run_defs)

text \<open>The theorem of C4 at a run of two batches with a transform that always raises.\<close>

theorem C4_witness:
  "apply_processing_funcs (processing_funcs (with_funcs [always_raises])) chunk_a
       = Inl (Exception ''boom'')
   \<and> apply_processing_funcs (processing_funcs (with_funcs [always_raises])) chunk_b
       = Inl (Exception ''boom'')
   \<and> snd (process (with_funcs [always_raises]) (world_of [chunk_a, chunk_b] no_fault)) = None
   \<and> chunk_number (fst (process (with_funcs [always_raises])
        (world_of [chunk_a, chunk_b] no_fault))) = 2
   \<and> error_numbers (logger (fst (process (with_funcs [always_raises])
        (world_of [chunk_a, chunk_b] no_fault)))) = [1, 2]
   \<and> total_rows (fst (process (with_funcs [always_raises])
        (world_of [chunk_a, chunk_b] no_fault))) = 0
   \<and> f_out (fst (process (with_funcs [always_raises])
        (world_of [chunk_a, chunk_b] no_fault))) = []"
proof -
  let ?self = "with_funcs [always_raises]"
  let ?w = "world_of [chunk_a, chunk_b] no_fault"
  have h1: "out_open ?w = None" by (simp add: world_of_def)
  have h2: "detect ?w = Inr (Some ''utf-8'')" by (simp add: world_of_def)
  have h3: "reader ?w = Inr ([chunk_a, chunk_b], None)" by (simp add: world_of_def)
  have h4: "\<forall>c\<in>set [chunk_a, chunk_b]. \<exists>m.
       apply_processing_funcs (processing_funcs ?self) c = Inl (Exception m)"
    by (simp add: with_funcs_def always_raises_def)
  have h5: "apply_processing_funcs (processing_funcs ?self) chunk_a = Inl (Exception ''boom'')
      \<and> apply_processing_funcs (processing_funcs ?self) chunk_b = Inl (Exception ''boom'')"
    by (simp add: with_funcs_def always_raises_def)
  from C4_every_batch_fails [OF h1 h2 h3 h4] h5 show ?thesis
    by simp
qed

section \<open>An input without data rows\<close>

text \<open>
  C5, as amended. For an input of a header row and no data row the Reader yields one
  batch, of zero rows. When the pipeline returns it with zero rows (as it does when no
  transform is configured), its write does not raise and the output closes, the run ends
  without an exception, with both totals 0, and the output file holds the header record
  only.
\<close>

theorem C5_header_only_input:
  "(out_open w = None \<and> detect w = Inr enc \<and> reader w = Inr ([chunk], None)
      \<and> rows chunk = []
      \<and> apply_processing_funcs (processing_funcs self) chunk = Inr chunk'
      \<and> rows chunk' = [] \<and> write_fault w 1 = None \<and> out_close w = None \<longrightarrow>
      map snd (items (read_chunks w)) = [chunk] \<and> len chunk = 0
      \<and> snd (process self w) = None
      \<and> total_rows (fst (process self w)) = 0 \<and> total_nulls (fst (process self w)) = 0
      \<and> f_out (fst (process self w)) = [Header (columns chunk')])
   \<and> (out_open w = None \<and> detect w = Inr enc \<and> reader w = Inr ([chunk], None)
      \<and> rows chunk = [] \<and> processing_funcs self = []
      \<and> write_fault w 1 = None \<and> out_close w = None \<longrightarrow>
      snd (process self w) = None
      \<and> total_rows (fst (process self w)) = 0 \<and> total_nulls (fst (process self w)) = 0
      \<and> f_out (fst (process self w)) = [Header (columns chunk)])"
  by (simp add: process_def close_stream_def read_chunks_def loop_body_def Let_def to_csv_def
        len_def isnull_sum_sum_def)

text \<open>
  C5 as stated fails: for a file of a header row and no data row the Reader yields one
  batch, not zero batches (the header is written with that batch); and with a transform
  that adds a row to it, \<open>total_rows\<close> is 1 and the file holds a data record.
\<close>

theorem C5_counterexample:
  "reader (header_only [''a'', ''b'']) = Inr ([\<lparr>columns = [''a'', ''b''], rows = []\<rparr>], None)
   \<and> length (items (read_chunks (header_only [''a'', ''b'']))) = 1
   \<and> f_out (fst (process (with_funcs []) (header_only [''a'', ''b'']))) = [Header [''a'', ''b'']]
   \<and> add_row \<lparr>columns = [''a'', ''b''], rows = []\<rparr> =
       Inr \<lparr>columns = [''a'', ''b''], rows = [[Some ''0'', Some ''0'']]\<rparr>
   \<and> total_rows (fst (process (with_funcs [add_row]) (header_only [''a'', ''b'']))) = 1
   \<and> f_out (fst (process (with_funcs [add_row]) (header_only [''a'', ''b'']))) =
       [Header [''a'', ''b''], Data [Some ''0'', Some ''0'']]"
  by (simp add: example_defs run_defs)

text \<open>
  The theorem of C5 at a file of a header row and no data row, with a transform that
  keeps the batch empty and with no transform.
\<close>

theorem C5_witness:
  "reader (header_only [''a'', ''b'']) = Inr ([\<lparr>columns = [''a'', ''b''], rows = []\<rparr>], None)
   \<and> dropna \<lparr>columns = [''a'', ''b''], rows = []\<rparr> = Inr \<lparr>columns = [''a'', ''b''], rows = []\<rparr>
   \<and> snd (process (with_funcs [dropna]) (header_only [''a'', ''b''])) = None
   \<and> total_rows (fst (process (with_funcs [dropna]) (header_only [''a'', ''b'']))) = 0
   \<and> f_out (fst (process (with_funcs [dropna]) (header_only [''a'', ''b'']))) =
       [Header [''a'', ''b'']]
   \<and> snd (process (with_funcs []) (header_only [''a'', ''b''])) = None
   \<and> total_rows (fst (process (with_funcs []) (header_only [''a'', ''b'']))) = 0
   \<and> total_nulls (fst (process (with_funcs []) (header_only [''a'', ''b'']))) = 0
   \<and> f_out (fst (process (with_funcs []) (header_only [''a'', ''b'']))) = [Header [''a'', ''b'']]"
proof -
  let ?c = "\<lparr>columns = [''a'', ''b''], rows = []\<rparr> :: frame"
  let ?w = "header_only [''a'', ''b'']"
  have r: "reader ?w = Inr ([?c], None)"
    by (simp add: header_only_def world_of_def)
  have d: "dropna ?c = Inr ?c"
    by (simp add: dropna_def)
  have h1: "out_open ?w = None \<and> detect ?w = Inr (Some ''utf-8'') \<and> reader ?w = Inr ([?c], None)
      \<and> rows ?c = []
      \<and> apply_processing_funcs (processing_funcs (with_funcs [dropna])) ?c = Inr ?c
      \<and> rows ?c = [] \<and> write_fault ?w 1 = None \<and> out_close ?w = None"
    by (simp add: header_only_def world_of_def with_funcs_def no_fault_def dropna_def)
  have h2: "out_open ?w = None \<and> detect ?w = Inr (Some ''utf-8'') \<and> reader ?w = Inr ([?c], None)
      \<and> rows ?c = [] \<and> processing_funcs (with_funcs []) = []
      \<and> write_fault ?w 1 = None \<and> out_close ?w = None"
    by (simp add: header_only_def world_of_def with_funcs_def no_fault_def)
  note t1 = C5_header_only_input
    [where w = ?w and self = "with_funcs [dropna]" and enc = "Some ''utf-8''"
       and chunk = ?c and chunk' = ?c]
  note t2 = C5_header_only_input
    [where w = ?w and self = "with_funcs []" and enc = "Some ''utf-8''" and chunk = ?c]
  from t1 h1 have a: "snd (process (with_funcs [dropna]) ?w) = None
     \<and> total_rows (fst (process (with_funcs [dropna]) ?w)) = 0
     \<and> f_out (fst (process (with_funcs [dropna]) ?w)) = [Header (columns ?c)]"
    by blast
  from t2 h2 have b: "snd (process (with_funcs []) ?w) = None
     \<and> total_rows (fst (process (with_funcs []) ?w)) = 0
     \<and> total_nulls (fst (process (with_funcs []) ?w)) = 0
     \<and> f_out (fst (process (with_funcs []) ?w)) = [Header (columns ?c)]"
    by blast
  from r d a b show ?thesis by simp
qed

section \<open>Running twice\<close>

lemma loop_body_out_before: "loop_body self (w\<lparr>out_before := x\<rparr>) = loop_body self w"
  by (intro ext) (simp add: loop_body_def Let_def split: sum.splits)

lemma for_chunks_out_before:
  "for_chunks self (w\<lparr>out_before := x\<rparr>) its s = for_chunks self w its s"
  by (induction its arbitrary: s) (auto simp: loop_body_out_before)

lemma read_chunks_out_before: "read_chunks (w\<lparr>out_before := x\<rparr>) = read_chunks w"
  by (simp add: read_chunks_def split: sum.splits)

lemma process_out_before:
  "f_out (fst (process self (w\<lparr>out_before := x\<rparr>))) =
     (case out_open w of None \<Rightarrow> f_out (fst (process self w)) | Some e \<Rightarrow> x)"
  by (simp add: process_def close_stream_def Let_def read_chunks_out_before
        for_chunks_out_before split: option.splits prod.splits)

text \<open>
  C8. A second run in the same world (the same input, the same detected encoding, the
  same transform functions, which are functions of the batch alone) that finds the
  output of the first run in place leaves the same output file; and when the output
  opens, the file written does not depend on what the file held before: it is
  truncated, not appended to.
\<close>

theorem C8_second_run_gives_the_same_file:
  "f_out (fst (process self (w\<lparr>out_before := f_out (fst (process self w))\<rparr>))) =
     f_out (fst (process self w))
   \<and> f_out (fst (process self (w\<lparr>out_open := None, out_before := previous\<rparr>))) =
     f_out (fst (process self (w\<lparr>out_open := None, out_before := []\<rparr>)))"
proof (intro conjI)
  show "f_out (fst (process self (w\<lparr>out_before := f_out (fst (process self w))\<rparr>))) =
     f_out (fst (process self w))"
    by (cases "out_open w") (simp_all add: process_out_before process_open_fails)
  have "f_out (fst (process self (w\<lparr>out_open := None, out_before := x\<rparr>))) =
     f_out (fst (process self (w\<lparr>out_open := None\<rparr>)))" for x
    using process_out_before [where self = self and w = "w\<lparr>out_open := None\<rparr>" and x = x]
    by simp
  then show "f_out (fst (process self (w\<lparr>out_open := None, out_before := previous\<rparr>))) =
     f_out (fst (process self (w\<lparr>out_open := None, out_before := []\<rparr>)))"
    by simp
qed

section \<open>The batches of the Reader\<close>

lemma chunk_rows_Nil: "chunk_rows C [] = []"
  by (simp add: chunk_rows.simps)

lemma chunk_rows_Cons:
  "0 < C \<Longrightarrow> rs \<noteq> [] \<Longrightarrow> chunk_rows C rs = take C rs # chunk_rows C (drop C rs)"
  by (subst chunk_rows.simps) simp

lemma chunk_rows_eq_Nil: "0 < C \<Longrightarrow> chunk_rows C rs = [] \<longleftrightarrow> rs = []"
  by (cases "rs = []") (simp_all add: chunk_rows_Nil chunk_rows_Cons)

lemma concat_chunk_rows: "0 < C \<Longrightarrow> concat (chunk_rows C rs) = rs"
proof (induction C rs rule: chunk_rows.induct)
  case (1 C rs)
  show ?case
  proof (cases "rs = []")
    case True
    then show ?thesis by (simp add: chunk_rows_Nil)
  next
    case False
    note eq = chunk_rows_Cons [OF 1(2) False]
    from 1 False have "concat (chunk_rows C (drop C rs)) = drop C rs" by simp
    then show ?thesis unfolding eq by simp
  qed
qed

lemma ceil_div_step:
  fixes n C :: nat
  assumes "0 < C" and "0 < n"
  shows "(n + C - 1) div C = Suc ((n - C + C - 1) div C)"
proof (cases "C \<le> n")
  case True
  from assms(2) have "n + C - 1 = (n - 1) + C" by arith
  moreover have "((n - 1) + C) div C = Suc ((n - 1) div C)"
    using assms(1) div_add_self2 [of C "n - 1"] by simp
  moreover from True have "n - C + C - 1 = n - 1" by arith
  ultimately show ?thesis by simp
next
  case False
  have "C * 1 \<le> n + C - 1" using assms(2) by arith
  moreover have "n + C - 1 < C * Suc 1" using False assms(2) by arith
  ultimately have a: "(n + C - 1) div C = 1"
    by (rule div_nat_eqI)
  from False have "n - C + C - 1 = C - 1" by arith
  moreover have "(C - 1) div C = 0" using assms(1) by simp
  ultimately show ?thesis using a by simp
qed

lemma length_chunk_rows: "0 < C \<Longrightarrow> length (chunk_rows C rs) = (length rs + C - 1) div C"
proof (induction C rs rule: chunk_rows.induct)
  case (1 C rs)
  show ?case
  proof (cases "rs = []")
    case True
    with 1(2) show ?thesis by (simp add: chunk_rows_Nil)
  next
    case False
    note eq = chunk_rows_Cons [OF 1(2) False]
    from 1 False have ih: "length (chunk_rows C (drop C rs)) = (length rs - C + C - 1) div C"
      by simp
    from False have pos: "0 < length rs" by simp
    have "length (chunk_rows C rs) = Suc ((length rs - C + C - 1) div C)"
      unfolding eq using ih by simp
    also have "\<dots> = (length rs + C - 1) div C"
      by (rule ceil_div_step [OF 1(2) pos, symmetric])
    finally show ?thesis .
  qed
qed

lemma butlast_chunk_rows:
  "0 < C \<Longrightarrow> c \<in> set (butlast (chunk_rows C rs)) \<Longrightarrow> length c = C"
proof (induction C rs rule: chunk_rows.induct)
  case (1 C rs)
  show ?case
  proof (cases "rs = []")
    case True
    with 1(3) show ?thesis by (simp add: chunk_rows_Nil)
  next
    case False
    note eq = chunk_rows_Cons [OF 1(2) False]
    show ?thesis
    proof (cases "drop C rs = []")
      case True
      with 1(3) show ?thesis unfolding eq by (simp add: chunk_rows_Nil)
    next
      case more: False
      then have ne: "chunk_rows C (drop C rs) \<noteq> []"
        using chunk_rows_eq_Nil [OF 1(2), of "drop C rs"] by simp
      from more have len: "length (take C rs) = C" by simp
      from 1(3) ne have "c = take C rs \<or> c \<in> set (butlast (chunk_rows C (drop C rs)))"
        unfolding eq by simp
      then show ?thesis
      proof
        assume "c = take C rs"
        with len show ?thesis by simp
      next
        assume "c \<in> set (butlast (chunk_rows C (drop C rs)))"
        with 1(1) [OF _ 1(2)] False 1(2) show ?thesis by simp
      qed
    qed
  qed
qed

lemma last_chunk_rows:
  "0 < C \<Longrightarrow> rs \<noteq> [] \<Longrightarrow>
     length (last (chunk_rows C rs)) = (if length rs mod C = 0 then C else length rs mod C)"
proof (induction C rs rule: chunk_rows.induct)
  case (1 C rs)
  note eq = chunk_rows_Cons [OF 1(2) 1(3)]
  from 1(3) have pos: "0 < length rs" by simp
  show ?case
  proof (cases "drop C rs = []")
    case True
    then have le: "length rs \<le> C" by simp
    from True have l: "length (last (chunk_rows C rs)) = length rs"
      unfolding eq using le by (simp add: chunk_rows_Nil)
    show ?thesis
    proof (cases "length rs = C")
      case True
      with l show ?thesis by simp
    next
      case False
      with le have "length rs < C" by simp
      with pos l show ?thesis by simp
    qed
  next
    case False
    then have lt: "C < length rs" by simp
    then have m: "(length rs - C) mod C = length rs mod C"
      by (simp add: le_mod_geq)
    from False have ne: "chunk_rows C (drop C rs) \<noteq> []"
      using chunk_rows_eq_Nil [OF 1(2), of "drop C rs"] by simp
    have ih: "length (last (chunk_rows C (drop C rs))) =
        (if length (drop C rs) mod C = 0 then C else length (drop C rs) mod C)"
      using 1(1) 1(2) 1(3) False by blast
    have "length (last (chunk_rows C rs)) = length (last (chunk_rows C (drop C rs)))"
      unfolding eq using ne by simp
    with ih m show ?thesis by simp
  qed
qed

lemma rows_read_csv: "map rows (read_csv cols rs C) = chunk_rows (nat C) rs"
  by (simp add: read_csv_def comp_def)

lemma chunk_rows5: "chunk_rows (nat 2) rows5 =
    [[[Some ''1''], [Some ''2'']], [[Some ''3''], [Some ''4'']], [[Some ''5'']]]"
  by code_simp

text \<open>
  C6. For a file of \<open>R\<close> data rows and a positive chunk size \<open>C\<close>, \<open>read_chunks\<close>
  yields the batches of the parser unchanged and in order, then stops; with the parser
  of the spec there are \<open>ceil(R / C)\<close> of them, every batch but the last has \<open>C\<close>
  rows, the last has \<open>R mod C\<close> rows, or \<open>C\<close> when that is 0, and the rows of the
  batches, one batch after the other, are the rows of the file.
\<close>

theorem C6_read_chunks_batches:
  assumes "0 < chunk_size self" and "detect w = Inr enc"
    and "reader w = Inr (read_csv cols rs (chunk_size self), None)"
  shows "map snd (items (read_chunks w)) = read_csv cols rs (chunk_size self)
    \<and> ending (read_chunks w) = None
    \<and> length (items (read_chunks w)) =
        (length rs + nat (chunk_size self) - 1) div nat (chunk_size self)
    \<and> (\<forall>it\<in>set (butlast (items (read_chunks w))). len (snd it) = chunk_size self)
    \<and> (rs \<noteq> [] \<longrightarrow>
        len (snd (last (items (read_chunks w)))) =
          (if int (length rs) mod chunk_size self = 0 then chunk_size self
           else int (length rs) mod chunk_size self))
    \<and> concat (map (rows \<circ> snd) (items (read_chunks w))) = rs"
proof -
  let ?its = "items (read_chunks w)"
  let ?C = "nat (chunk_size self)"
  have C: "0 < ?C" using assms(1) by simp
  have iC: "int ?C = chunk_size self" using assms(1) by simp
  have y: "map snd ?its = read_csv cols rs (chunk_size self)" "ending (read_chunks w) = None"
    using read_chunks_yields [OF assms(2,3)] by simp_all
  have "map (rows \<circ> snd) ?its = map rows (map snd ?its)" by simp
  also have "\<dots> = chunk_rows ?C rs" unfolding y(1) by (rule rows_read_csv)
  finally have r: "map (rows \<circ> snd) ?its = chunk_rows ?C rs" .
  have "length ?its = length (map (rows \<circ> snd) ?its)" by simp
  also have "\<dots> = (length rs + ?C - 1) div ?C"
    unfolding r by (rule length_chunk_rows [OF C])
  finally have n: "length ?its = (length rs + ?C - 1) div ?C" .
  have b: "\<forall>it\<in>set (butlast ?its). len (snd it) = chunk_size self"
  proof
    fix it assume "it \<in> set (butlast ?its)"
    then have "(rows \<circ> snd) it \<in> (rows \<circ> snd) ` set (butlast ?its)" by (rule imageI)
    also have "\<dots> = set (butlast (map (rows \<circ> snd) ?its))"
      unfolding map_butlast [symmetric] by (rule set_map [symmetric])
    finally have "rows (snd it) \<in> set (butlast (chunk_rows ?C rs))"
      unfolding r by simp
    from butlast_chunk_rows [OF C this] have "length (rows (snd it)) = ?C" .
    then have "len (snd it) = int ?C" by (simp only: len_def)
    then show "len (snd it) = chunk_size self" by (simp only: iC)
  qed
  have l: "len (snd (last ?its)) =
          (if int (length rs) mod chunk_size self = 0 then chunk_size self
           else int (length rs) mod chunk_size self)" if ne: "rs \<noteq> []"
  proof -
    from ne have "chunk_rows ?C rs \<noteq> []"
      using chunk_rows_eq_Nil [OF C, of rs] by simp
    with r have its: "?its \<noteq> []" by auto
    have "last (map (rows \<circ> snd) ?its) = (rows \<circ> snd) (last ?its)"
      using its by (rule last_map)
    then have "rows (snd (last ?its)) = last (chunk_rows ?C rs)"
      unfolding r by simp
    then have len_last: "length (rows (snd (last ?its))) =
        (if length rs mod ?C = 0 then ?C else length rs mod ?C)"
      by (simp only: last_chunk_rows [OF C ne])
    have m: "int (length rs mod ?C) = int (length rs) mod chunk_size self"
      by (simp only: zmod_int iC)
    show ?thesis
    proof (cases "length rs mod ?C = 0")
      case True
      with len_last have "len (snd (last ?its)) = int ?C" by (simp add: len_def)
      moreover from True m have "int (length rs) mod chunk_size self = 0" by simp
      ultimately show ?thesis using assms(1) by simp
    next
      case False
      with len_last have "len (snd (last ?its)) = int (length rs mod ?C)" by (simp add: len_def)
      moreover from False m have "int (length rs) mod chunk_size self \<noteq> 0" by simp
      ultimately show ?thesis using m by simp
    qed
  qed
  have c: "concat (map (rows \<circ> snd) ?its) = rs"
    unfolding r by (rule concat_chunk_rows [OF C])
  from y n b l c show ?thesis by blast
qed

text \<open>The theorem of C6 at a file of five rows read with chunk size 2.\<close>

theorem C6_witness:
  "length rows5 = 5
   \<and> map (rows \<circ> snd) (items (read_chunks (world_csv [''n''] rows5 2))) =
       [[[Some ''1''], [Some ''2'']], [[Some ''3''], [Some ''4'']], [[Some ''5'']]]
   \<and> length (items (read_chunks (world_csv [''n''] rows5 2))) = 3
   \<and> len (snd (last (items (read_chunks (world_csv [''n''] rows5 2))))) = 1
   \<and> concat (map (rows \<circ> snd) (items (read_chunks (world_csv [''n''] rows5 2)))) = rows5"
proof -
  let ?self = "\<lparr>processing_funcs = [], chunk_size = 2\<rparr>"
  let ?w = "world_csv [''n''] rows5 2"
  have h1: "0 < chunk_size ?self" by simp
  have h2: "detect ?w = Inr (Some ''utf-8'')" by (simp add: world_csv_def world_of_def)
  have h3: "reader ?w = Inr (read_csv [''n''] rows5 (chunk_size ?self), None)"
    by (simp add: world_csv_def world_of_def)
  have ne: "rows5 \<noteq> []" by (simp add: rows5_def)
  have n: "length rows5 = 5" by (simp add: rows5_def)
  have r: "map rows (read_csv [''n''] rows5 2) =
       [[[Some ''1''], [Some ''2'']], [[Some ''3''], [Some ''4'']], [[Some ''5'']]]"
    using chunk_rows5 by (simp add: rows_read_csv)
  from C6_read_chunks_batches [OF h1 h2 h3] ne n r show ?thesis
    by (simp add: rows5_def map_map [symmetric] del: map_map)
qed

end
